theory Spec2Isabelle
  imports Main
begin

section \<open>The private-session add-on (private-session.js)\<close>

text \<open>
  The add-on is one script: a handful of global variables, synchronous helpers over the
  host's DOM and local storage, and \<^verbatim>\<open>async\<close> functions that suspend on timers. The
  model keeps the script's function names. The globals and the browser objects the script
  writes (local storage, listener lists, pending timeouts) are one record that every
  function takes and returns; what the host page shows is an input.
\<close>

subsection \<open>Constants (lines 1-23)\<close>

definition PS_PRIVATE_SESSION_LABEL_TEXT :: string where
  "PS_PRIVATE_SESSION_LABEL_TEXT = ''Private session''"

definition PS_PERSISTENT_SESSION_LABEL_TEXT :: string where
  "PS_PERSISTENT_SESSION_LABEL_TEXT = ''Persistent Privacy''"

definition PS_RETRY_LIMIT :: nat where
  "PS_RETRY_LIMIT = 3"

definition PS_INDICATOR_RETRIES :: nat where
  "PS_INDICATOR_RETRIES = 2"

definition PS_DELAY_MS :: nat where
  "PS_DELAY_MS = 100"

definition MENU_OPERATION_COOLDOWN :: int where
  "MENU_OPERATION_COOLDOWN = 500"

definition PRIVATE_SESSION_INDICATOR_CONTAINER :: string where
  "PRIVATE_SESSION_INDICATOR_CONTAINER = ''.Root__globalNav > div:last-child''"

definition MAIN_MENU :: string where
  "MAIN_MENU = ''button.main-userWidget-box, button[data-testid='' @ [CHR 0x27] @
     ''user-widget-avatar'' @ [CHR 0x27] @ ''], .main-userWidget-box button, [data-testid='' @
     [CHR 0x27] @ ''user-widget-dropdown'' @ [CHR 0x27] @ ''], button.main-avatar-button''"

definition MENU_ITEM_BUTTON :: string where
  "MENU_ITEM_BUTTON = ''button[role='' @ [CHR 0x27] @ ''menuitemcheckbox'' @ [CHR 0x27] @
     ''], button[role='' @ [CHR 0x27] @ ''menuitem'' @ [CHR 0x27] @ '']''"

definition PROFILE_DROPDOWN_MENU :: string where
  "PROFILE_DROPDOWN_MENU = ''ul.main-contextMenu-menu, [role='' @ [CHR 0x27] @ ''menu'' @
     [CHR 0x27] @ ''], ul[role='' @ [CHR 0x27] @ ''menu'' @ [CHR 0x27] @ '']''"

definition PS_PERSISTENT_ITEM_ID :: string where
  "PS_PERSISTENT_ITEM_ID = ''ps-persistent-item''"

definition STORAGE_KEY :: string where
  "STORAGE_KEY = ''private-session-persistent-mode''"

subsection \<open>DOM nodes\<close>

text \<open>
  An element has a tag, an id, a class attribute, further attributes (style, title,
  role), the names of the events it has listeners for, and child nodes; a text node has
  its data. Tags are written in lower case.
\<close>

datatype node =
    Element (tagName: string) (ident: string) (className: string)
      (attributes: "(string \<times> string) list") (eventListeners: "string list")
      (childNodes: "node list")
  | Text (data: string)

text \<open>The selectors the script applies to an element it holds: a tag
  (\<^verbatim>\<open>span\<close>), an id (\<^verbatim>\<open>#ps-persistent-item\<close>), a class (\<^verbatim>\<open>.sidebar-checkbox\<close>), a tag
  with a class (\<^verbatim>\<open>ul.main-contextMenu-menu\<close>), an attribute with its value, and a tag
  with an attribute and its value.\<close>

datatype selector =
    ByTag string
  | ById string
  | ByClass string
  | ByTagClass string string
  | ByAttribute string string
  | ByTagAttribute string string string

text \<open>What the script does to the host, in order: the interaction trace. \<open>Rewrite\<close>
  is a change the script makes to a menu list: the list as it was and as it is left.\<close>

datatype event =
    Query string
  | QueryAll string
  | Click node
  | SetTimeout nat
  | ClearTimeout nat
  | Rewrite node node

text \<open>
  The callbacks the script hands to \<^verbatim>\<open>setTimeout\<close> other than a promise's
  \<^verbatim>\<open>resolve\<close>: the delayed second click of \<^verbatim>\<open>ensureMenuClosed\<close> (it captures the
  menu button), the delayed focus check, and the retry of \<^verbatim>\<open>addPersistentPrivacyItem\<close>
  (it captures the retry count).
\<close>

datatype callback = MenuCloseCheck node | FocusCheck | RetryAddItem nat

subsection \<open>State (lines 25-32, and the browser objects the script writes)\<close>

record state =
  persistentModeEnabled :: bool
  focusEventListener :: "nat option"
  menuItemAdded :: bool
  menuOperationInProgress :: bool
  lastMenuOperationTime :: int
  pendingFocusCheck :: bool
  menuCloseTimer :: "nat option"
  localStorage :: "string \<rightharpoonup> string"
  closureCount :: nat
  windowFocusListeners :: "nat list"
  documentVisibilityListeners :: "nat list"
  timerCount :: nat
  timeouts :: "(nat \<times> int \<times> callback) list"
  menuObserverInstalled :: bool
  trace :: "event list"

text \<open>
  \<^verbatim>\<open>focusEventListener\<close> is \<^verbatim>\<open>null\<close> (\<open>None\<close>) or a function object. Function
  objects are named by the order of their creation (\<open>closureCount\<close> counts them), and a
  listener list holds the names of the registered functions in registration order.
  \<open>timeouts\<close> are the pending \<^verbatim>\<open>setTimeout\<close> callbacks: timer id, the time at which
  the timer is due, and the callback. \<open>menuObserverInstalled\<close> says whether
  \<^verbatim>\<open>setupMenuObserver\<close> has installed the mutation observer.
\<close>

text \<open>What the host shows while a synchronous stretch of the script runs: the clock
  (\<^verbatim>\<open>Date.now()\<close>) and, for each selector string, the elements of the document that
  match it, in document order.\<close>

record env =
  now :: int
  matches :: "string \<Rightarrow> node list"

subsection \<open>Persistence (lines 154-166)\<close>

definition toString :: "bool \<Rightarrow> string" where
  "toString b = (if b then ''true'' else ''false'')"

definition savePersistentModeSetting :: "state \<Rightarrow> state" where
  "savePersistentModeSetting s =
     s\<lparr>localStorage := (localStorage s)(STORAGE_KEY \<mapsto> toString (persistentModeEnabled s))\<rparr>"

definition loadPersistentModeSetting :: "state \<Rightarrow> state" where
  "loadPersistentModeSetting s =
     (let savedSetting = localStorage s STORAGE_KEY
      in s\<lparr>persistentModeEnabled := (savedSetting = Some ''true'')\<rparr>)"

subsection \<open>Persistent mode (lines 324-374, 448-474)\<close>

text \<open>
  \<^verbatim>\<open>enablePersistentMode\<close> creates two function objects when \<^verbatim>\<open>focusEventListener\<close>
  is \<^verbatim>\<open>null\<close>: the focus listener, kept in the variable and added to the window, and an
  anonymous handler added to the document for \<^verbatim>\<open>visibilitychange\<close>. A function object
  just created is not yet in any listener list, so \<^verbatim>\<open>addEventListener\<close> appends it.
  \<^verbatim>\<open>removeEventListener\<close> takes the given function out of the list.
\<close>

definition removeEventListener :: "nat \<Rightarrow> nat list \<Rightarrow> nat list" where
  "removeEventListener f ls = remove1 f ls"

definition enablePersistentMode :: "state \<Rightarrow> state" where
  "enablePersistentMode s0 =
     (let s1 = savePersistentModeSetting (s0\<lparr>persistentModeEnabled := True\<rparr>)
      in if focusEventListener s1 = None
         then (let f = closureCount s1; v = closureCount s1 + 1
               in s1\<lparr>focusEventListener := Some f,
                     closureCount := closureCount s1 + 2,
                     windowFocusListeners := windowFocusListeners s1 @ [f],
                     documentVisibilityListeners := documentVisibilityListeners s1 @ [v]\<rparr>)
         else s1)"

definition disablePersistentMode :: "state \<Rightarrow> state" where
  "disablePersistentMode s0 =
     (let s1 = savePersistentModeSetting (s0\<lparr>persistentModeEnabled := False\<rparr>)
      in case focusEventListener s1 of
           Some f \<Rightarrow> s1\<lparr>windowFocusListeners := removeEventListener f (windowFocusListeners s1),
                         focusEventListener := None\<rparr>
         | None \<Rightarrow> s1)"

definition togglePersistentMode :: "state \<Rightarrow> state" where
  "togglePersistentMode s0 =
     (let s1 = savePersistentModeSetting
                 (s0\<lparr>persistentModeEnabled := \<not> persistentModeEnabled s0\<rparr>)
      in if persistentModeEnabled s1 then enablePersistentMode s1
         else disablePersistentMode s1)"

text \<open>
  The window's list of focus listeners holds the functions this script has registered.
  The list and the variable agree when the list is empty and the variable is \<^verbatim>\<open>null\<close>,
  or the list holds exactly the function in the variable. The focus listener is installed
  when the window has a focus listener.
\<close>

definition listenersConsistent :: "state \<Rightarrow> bool" where
  "listenersConsistent s =
     (windowFocusListeners s = (case focusEventListener s of None \<Rightarrow> [] | Some f \<Rightarrow> [f]))"

definition focusListenerInstalled :: "state \<Rightarrow> bool" where
  "focusListenerInstalled s = (windowFocusListeners s \<noteq> [])"

subsection \<open>Strings and the elements the script holds\<close>

text \<open>
  \<^verbatim>\<open>trim\<close> takes white space and line terminators off both ends, \<^verbatim>\<open>includes\<close> looks
  for a substring. A string is a list of characters with codes 0 to 255. Of the characters
  that \<^verbatim>\<open>String.prototype.trim\<close> strips, those with such codes are tab, line feed,
  vertical tab, form feed, carriage return, space and the no-break space (A0).
\<close>

definition isSpace :: "char \<Rightarrow> bool" where
  "isSpace c =
     (c \<in> set [CHR 0x09, CHR 0x0A, CHR 0x0B, CHR 0x0C, CHR 0x0D, CHR '' '', CHR 0xA0])"

definition trim :: "string \<Rightarrow> string" where
  "trim str = rev (dropWhile isSpace (rev (dropWhile isSpace str)))"

fun includes_str :: "string \<Rightarrow> string \<Rightarrow> bool" where
  "includes_str [] sub = (sub = [])"
| "includes_str (c # cs) sub = (take (length sub) (c # cs) = sub \<or> includes_str cs sub)"

text \<open>The class names of a \<^verbatim>\<open>class\<close> attribute: its words, separated by HTML's
  white space (tab, line feed, form feed, carriage return, space).\<close>

definition isHtmlSpace :: "char \<Rightarrow> bool" where
  "isHtmlSpace c = (c \<in> set [CHR 0x09, CHR 0x0A, CHR 0x0C, CHR 0x0D, CHR '' ''])"

fun tokens :: "string \<Rightarrow> string \<Rightarrow> string list" where
  "tokens cur [] = (if cur = [] then [] else [cur])"
| "tokens cur (c # cs) =
     (if isHtmlSpace c then (if cur = [] then tokens [] cs else cur # tokens [] cs)
      else tokens (cur @ [c]) cs)"

definition classList :: "string \<Rightarrow> string list" where
  "classList cls = tokens [] cls"

text \<open>
  \<^verbatim>\<open>el.querySelectorAll\<close>, \<^verbatim>\<open>el.querySelector\<close> and \<^verbatim>\<open>el.textContent\<close> on an
  element the script holds: the descendants in document order, those that match, the first
  that matches, and the text of all text nodes below.
\<close>

fun descendants :: "node \<Rightarrow> node list" where
  "descendants (Element t i c a l cs) = concat (map (\<lambda>ch. ch # descendants ch) cs)"
| "descendants (Text d) = []"

fun textContent :: "node \<Rightarrow> string" where
  "textContent (Element t i c a l cs) = concat (map textContent cs)"
| "textContent (Text d) = d"

fun matchesSelector :: "selector \<Rightarrow> node \<Rightarrow> bool" where
  "matchesSelector (ByTag x) (Element t i c a l cs) = (t = x)"
| "matchesSelector (ById x) (Element t i c a l cs) = (i = x)"
| "matchesSelector (ByClass x) (Element t i c a l cs) = (x \<in> set (classList c))"
| "matchesSelector (ByTagClass x y) (Element t i c a l cs) = (t = x \<and> y \<in> set (classList c))"
| "matchesSelector (ByAttribute k v) (Element t i c a l cs) = (map_of a k = Some v)"
| "matchesSelector (ByTagAttribute x k v) (Element t i c a l cs) =
     (t = x \<and> map_of a k = Some v)"
| "matchesSelector sel (Text d) = False"

definition querySelectorAll_in :: "node \<Rightarrow> selector \<Rightarrow> node list" where
  "querySelectorAll_in n sel = filter (matchesSelector sel) (descendants n)"

definition querySelector_in :: "node \<Rightarrow> selector \<Rightarrow> node option" where
  "querySelector_in n sel = List.find (matchesSelector sel) (descendants n)"

subsection \<open>Asynchronous functions\<close>

text \<open>
  An \<^verbatim>\<open>async\<close> function runs in stretches. A stretch starts in an environment and a
  state and ends in one of three ways: the function returns, it throws, or it suspends at
  an \<^verbatim>\<open>await\<close> on a timer. A suspension records the source line of the \<^verbatim>\<open>await\<close>, the
  delay, the state left behind, and the rest of the function, which the host resumes
  later in the environment and state of that later moment. An \<^verbatim>\<open>await\<close> of a call that
  finishes without waiting on a timer continues in the same stretch.
\<close>

datatype error = Error string

datatype 'a run =
    Return 'a state
  | Raise error state
  | Suspend (atLine: nat) (delayMs: nat) state "env \<Rightarrow> state \<Rightarrow> 'a run"

type_synonym 'a async = "env \<Rightarrow> state \<Rightarrow> 'a run"

text \<open>\<^verbatim>\<open>const x = await f(); rest\<close> is \<open>bindA (f e s) (\<lambda>x. rest) e\<close>; \<^verbatim>\<open>try { body }
  catch (err) { handler }\<close> is \<open>catchA body (\<lambda>err. handler) e\<close>.\<close>

primrec bindA :: "'a run \<Rightarrow> ('a \<Rightarrow> 'b async) \<Rightarrow> env \<Rightarrow> 'b run" where
  "bindA (Return x s) k e = k x e s"
| "bindA (Raise err s) k e = Raise err s"
| "bindA (Suspend l d s c) k e = Suspend l d s (\<lambda>e' s'. bindA (c e' s') k e')"

primrec catchA :: "'a run \<Rightarrow> (error \<Rightarrow> 'a async) \<Rightarrow> env \<Rightarrow> 'a run" where
  "catchA (Return x s) h e = Return x s"
| "catchA (Raise err s) h e = h err e s"
| "catchA (Suspend l d s c) h e = Suspend l d s (\<lambda>e' s'. catchA (c e' s') h e')"

text \<open>\<^verbatim>\<open>await new Promise(resolve => setTimeout(resolve, ms))\<close> at the given line.\<close>

definition sleep :: "nat \<Rightarrow> nat \<Rightarrow> 'a async \<Rightarrow> 'a async" where
  "sleep line ms k e s =
     Suspend line ms (s\<lparr>trace := trace s @ [SetTimeout ms], timerCount := timerCount s + 1\<rparr>) k"

text \<open>The calls on the host: each is written to the trace. Timer ids are positive and
  count up.\<close>

definition document_querySelector :: "string \<Rightarrow> env \<Rightarrow> state \<Rightarrow> node option \<times> state" where
  "document_querySelector sel e s =
     (case matches e sel of [] \<Rightarrow> None | el # _ \<Rightarrow> Some el, s\<lparr>trace := trace s @ [Query sel]\<rparr>)"

definition document_querySelectorAll :: "string \<Rightarrow> env \<Rightarrow> state \<Rightarrow> node list \<times> state" where
  "document_querySelectorAll sel e s = (matches e sel, s\<lparr>trace := trace s @ [QueryAll sel]\<rparr>)"

definition setTimeout :: "callback \<Rightarrow> nat \<Rightarrow> env \<Rightarrow> state \<Rightarrow> nat \<times> state" where
  "setTimeout cb ms e s =
     (let t = timerCount s + 1
      in (t, s\<lparr>timerCount := t,
                timeouts := timeouts s @ [(t, now e + int ms, cb)],
                trace := trace s @ [SetTimeout ms]\<rparr>))"

definition clearTimeout :: "nat \<Rightarrow> state \<Rightarrow> state" where
  "clearTimeout t s =
     s\<lparr>timeouts := filter (\<lambda>(i, _). i \<noteq> t) (timeouts s),
       trace := trace s @ [ClearTimeout t]\<rparr>"

definition click :: "node \<Rightarrow> state \<Rightarrow> state" where
  "click el s = s\<lparr>trace := trace s @ [Click el]\<rparr>"

subsection \<open>Locators (lines 40-149)\<close>

text \<open>\<^verbatim>\<open>getElement\<close> returns one element, a list of elements, or \<^verbatim>\<open>null\<close>. Each
  \<^verbatim>\<open>for\<close> loop over \<^verbatim>\<open>retryCount\<close> is a function of \<^verbatim>\<open>retryCount\<close>, started at 0.\<close>

datatype found = One node | Many "node list"

function getElement_from :: "nat \<Rightarrow> string \<Rightarrow> bool \<Rightarrow> found option async" where
  "getElement_from retryCount sel multiple e s =
     (if retryCount < PS_RETRY_LIMIT then
        (if multiple then
           (let (elements, s1) = document_querySelectorAll sel e s
            in if length elements > 0 then Return (Some (Many elements)) s1
               else sleep 56 PS_DELAY_MS
                      (\<lambda>e' s'. getElement_from (retryCount + 1) sel multiple e' s') e s1)
         else
           (let (element, s1) = document_querySelector sel e s
            in case element of
                 Some el \<Rightarrow> Return (Some (One el)) s1
               | None \<Rightarrow> sleep 56 PS_DELAY_MS
                      (\<lambda>e' s'. getElement_from (retryCount + 1) sel multiple e' s') e s1))
      else Return None s)"
  by pat_completeness auto
termination
  by (relation "measure (\<lambda>(r, _). PS_RETRY_LIMIT - r)") auto


declare getElement_from.simps [simp del]

definition getElement :: "string \<Rightarrow> bool \<Rightarrow> found option async" where
  "getElement sel multiple = getElement_from 0 sel multiple"

definition isMenuItemSelected :: "node \<Rightarrow> bool" where
  "isMenuItemSelected button = (querySelector_in button (ByTag ''svg'') \<noteq> None)"

definition isMenuItemWithLabel :: "node \<Rightarrow> string \<Rightarrow> bool" where
  "isMenuItemWithLabel button labelText =
     (case querySelector_in button (ByTag ''span'') of
        None \<Rightarrow> False
      | Some label \<Rightarrow> trim (textContent label) = labelText)"

definition searchForMenuItemButton :: "string \<Rightarrow> env \<Rightarrow> state \<Rightarrow> node option \<times> state" where
  "searchForMenuItemButton labelText e s =
     (let (menuItems, s1) = document_querySelectorAll MENU_ITEM_BUTTON e s
      in (if length menuItems = 0 then None
          else List.find (\<lambda>button. isMenuItemWithLabel button labelText) menuItems, s1))"

function findMenuItemButton_from :: "nat \<Rightarrow> string \<Rightarrow> node option async" where
  "findMenuItemButton_from retryCount labelText e s =
     (if retryCount < PS_RETRY_LIMIT then
        (let (button, s1) = searchForMenuItemButton labelText e s
         in case button of
              Some b \<Rightarrow> Return (Some b) s1
            | None \<Rightarrow> sleep 84 PS_DELAY_MS
                (\<lambda>e' s'. findMenuItemButton_from (retryCount + 1) labelText e' s') e s1)
      else Return None s)"
  by pat_completeness auto
termination
  by (relation "measure (\<lambda>(r, _). PS_RETRY_LIMIT - r)") auto

declare findMenuItemButton_from.simps [simp del]

definition findMenuItemButton :: "string \<Rightarrow> node option async" where
  "findMenuItemButton labelText = findMenuItemButton_from 0 labelText"

definition findPrivateSessionButtonInContainer :: "node \<Rightarrow> node option" where
  "findPrivateSessionButtonInContainer container =
     (let buttons = querySelectorAll_in container (ByTag ''button'')
      in List.find (\<lambda>button. includes_str (textContent button) PS_PRIVATE_SESSION_LABEL_TEXT)
           buttons)"

definition searchForPrivateSessionIndicator :: "env \<Rightarrow> state \<Rightarrow> node option \<times> state" where
  "searchForPrivateSessionIndicator e s =
     (let (container, s1) = document_querySelector PRIVATE_SESSION_INDICATOR_CONTAINER e s
      in (case container of
            None \<Rightarrow> None
          | Some c \<Rightarrow> findPrivateSessionButtonInContainer c, s1))"

function findPrivateSessionIndicator_from :: "nat \<Rightarrow> node option async" where
  "findPrivateSessionIndicator_from retryCount e s =
     (if retryCount < PS_INDICATOR_RETRIES then
        (let (indicator, s1) = searchForPrivateSessionIndicator e s
         in case indicator of
              Some b \<Rightarrow> Return (Some b) s1
            | None \<Rightarrow> sleep 120 PS_DELAY_MS
                (\<lambda>e' s'. findPrivateSessionIndicator_from (retryCount + 1) e' s') e s1)
      else Return None s)"
  by pat_completeness auto
termination
  by (relation "measure (\<lambda>(r, _). PS_INDICATOR_RETRIES - r)") auto

declare findPrivateSessionIndicator_from.simps [simp del]

definition findPrivateSessionIndicator :: "node option async" where
  "findPrivateSessionIndicator = findPrivateSessionIndicator_from 0"

definition isPrivateSessionActive :: "bool async" where
  "isPrivateSessionActive e s =
     bindA (findPrivateSessionIndicator e s) (\<lambda>indicator e' s'. Return (indicator \<noteq> None) s') e"

subsection \<open>Menu operations (lines 172-319)\<close>

text \<open>\<^verbatim>\<open>if (menuCloseTimer)\<close>: \<^verbatim>\<open>null\<close> and 0 are falsy.\<close>

definition truthy :: "nat option \<Rightarrow> bool" where
  "truthy t = (case t of None \<Rightarrow> False | Some n \<Rightarrow> n \<noteq> 0)"

definition ensureMenuClosed :: "env \<Rightarrow> state \<Rightarrow> state" where
  "ensureMenuClosed e s =
     (let s1 = (if truthy (menuCloseTimer s)
                then (clearTimeout (the (menuCloseTimer s)) s)\<lparr>menuCloseTimer := None\<rparr>
                else s);
          (openMenu, s2) = document_querySelector PROFILE_DROPDOWN_MENU e s1
      in case openMenu of
           None \<Rightarrow> s2
         | Some _ \<Rightarrow>
             (let (menuButton, s3) = document_querySelector MAIN_MENU e s2
              in case menuButton of
                   None \<Rightarrow> s3
                 | Some b \<Rightarrow>
                     (let s4 = click b s3;
                          (t, s5) = setTimeout (MenuCloseCheck b) 150 e s4
                      in s5\<lparr>menuCloseTimer := Some t\<rparr>)))"

text \<open>The callback of the timer set in \<^verbatim>\<open>ensureMenuClosed\<close> (lines 197-204).\<close>

definition menuCloseCheck :: "node \<Rightarrow> env \<Rightarrow> state \<Rightarrow> state" where
  "menuCloseCheck menuButton e s =
     (let (menuStillOpen, s1) = document_querySelector PROFILE_DROPDOWN_MENU e s;
          s2 = (case menuStillOpen of Some _ \<Rightarrow> click menuButton s1 | None \<Rightarrow> s1)
      in s2\<lparr>menuCloseTimer := None\<rparr>)"

definition canPerformMenuOperation :: "env \<Rightarrow> state \<Rightarrow> bool" where
  "canPerformMenuOperation e s =
     (if menuOperationInProgress s then False
      else if now e - lastMenuOperationTime s < MENU_OPERATION_COOLDOWN then False
      else True)"

definition openMainMenu :: "node async" where
  "openMainMenu e s =
     sleep 232 150
       (\<lambda>e1 s1. bindA (getElement MAIN_MENU False e1 s1)
          (\<lambda>menu e2 s2.
             case menu of
               None \<Rightarrow> Raise (Error ''Failed to find menu button'') s2
             | Some (Many els) \<Rightarrow> Raise (Error ''menu.click is not a function'') s2
             | Some (One m) \<Rightarrow>
                 sleep 240 (PS_DELAY_MS * 2) (\<lambda>e3 s3. Return m s3) e2 (click m s2))
          e1)
       e (ensureMenuClosed e s)"

definition activatePrivateSessionMenuItem :: "bool async" where
  "activatePrivateSessionMenuItem e s =
     bindA (findMenuItemButton PS_PRIVATE_SESSION_LABEL_TEXT e s)
       (\<lambda>privateSessionMenuItem e1 s1.
          case privateSessionMenuItem of
            None \<Rightarrow> Raise (Error (PS_PRIVATE_SESSION_LABEL_TEXT @ '' menu item not found'')) s1
          | Some item \<Rightarrow>
              if \<not> isMenuItemSelected item
              then sleep 256 PS_DELAY_MS (\<lambda>e2 s2. Return True s2) e1 (click item s1)
              else Return True s1)
       e"

definition cleanupMenuOperation :: "env \<Rightarrow> state \<Rightarrow> state" where
  "cleanupMenuOperation e s = (ensureMenuClosed e s)\<lparr>menuOperationInProgress := False\<rparr>"

definition prepareMenuOperation :: "env \<Rightarrow> state \<Rightarrow> state" where
  "prepareMenuOperation e s = s\<lparr>menuOperationInProgress := True, lastMenuOperationTime := now e\<rparr>"

definition handlePrivateSessionActivation :: "bool \<Rightarrow> bool async" where
  "handlePrivateSessionActivation forceOpen e s =
     (if \<not> forceOpen then Return False s
      else bindA (openMainMenu e (prepareMenuOperation e s))
             (\<lambda>_ e1 s1. bindA (activatePrivateSessionMenuItem e1 s1)
                (\<lambda>_ e2 s2. Return True (cleanupMenuOperation e2 s2)) e1)
             e)"

text \<open>\<^verbatim>\<open>startPrivateSession\<close> (lines 277-298): the body of its \<^verbatim>\<open>try\<close>, its
  \<^verbatim>\<open>catch\<close> handler, and the function.\<close>

definition startPrivateSession_try :: "bool \<Rightarrow> bool async" where
  "startPrivateSession_try forceOpen e s =
     bindA (isPrivateSessionActive e s)
       (\<lambda>isActive e1 s1.
          if isActive then Return True s1
          else handlePrivateSessionActivation forceOpen e1 s1)
       e"

definition startPrivateSession_catch :: "error \<Rightarrow> bool async" where
  "startPrivateSession_catch err e s = Return False (cleanupMenuOperation e s)"

definition startPrivateSession :: "bool \<Rightarrow> bool async" where
  "startPrivateSession forceOpen e s =
     (if \<not> canPerformMenuOperation e s then Return False s
      else catchA (startPrivateSession_try forceOpen e s) startPrivateSession_catch e)"

subsection \<open>The menu list as a tree (lines 381-615)\<close>

text \<open>
  The functions that build the custom menu item work on the menu list they are given.
  The list is a tree of nodes, and an element inside it is named by its path from the
  root: the child indices on the way down. The root has no parent here, as for a list
  that stands on its own; \<^verbatim>\<open>closest\<close> looks at the element itself and then at its
  ancestors up to the root.
\<close>

fun nodeAt :: "node \<Rightarrow> nat list \<Rightarrow> node option" where
  "nodeAt n [] = Some n"
| "nodeAt (Element t i c a l cs) (k # p) = (if k < length cs then nodeAt (cs ! k) p else None)"
| "nodeAt (Text d) (k # p) = None"

text \<open>The paths of all descendants, in document order.\<close>

fun paths :: "node \<Rightarrow> nat list list" and pathsFrom :: "nat \<Rightarrow> node list \<Rightarrow> nat list list" where
  "paths (Element t i c a l cs) = pathsFrom 0 cs"
| "paths (Text d) = []"
| "pathsFrom k [] = []"
| "pathsFrom k (ch # chs) = ([k] # map ((#) k) (paths ch)) @ pathsFrom (k + 1) chs"

fun updateAt :: "node \<Rightarrow> nat list \<Rightarrow> (node \<Rightarrow> node) \<Rightarrow> node" where
  "updateAt n [] f = f n"
| "updateAt (Element t i c a l cs) (k # p) f =
     Element t i c a l (if k < length cs then cs[k := updateAt (cs ! k) p f] else cs)"
| "updateAt (Text d) (k # p) f = Text d"

definition matchesAt :: "node \<Rightarrow> selector \<Rightarrow> nat list \<Rightarrow> bool" where
  "matchesAt root sel p = (case nodeAt root p of Some n \<Rightarrow> matchesSelector sel n | None \<Rightarrow> False)"

definition elementsBy :: "node \<Rightarrow> selector \<Rightarrow> nat list list" where
  "elementsBy root sel = filter (matchesAt root sel) (paths root)"

definition closest :: "node \<Rightarrow> nat list \<Rightarrow> selector \<Rightarrow> nat list option" where
  "closest root p sel =
     List.find (matchesAt root sel) (map (\<lambda>k. take k p) (rev [0..<length p + 1]))"

definition textContentAt :: "node \<Rightarrow> nat list \<Rightarrow> string" where
  "textContentAt root p = (case nodeAt root p of Some n \<Rightarrow> textContent n | None \<Rightarrow> [])"

definition classNameAt :: "node \<Rightarrow> nat list \<Rightarrow> string" where
  "classNameAt root p =
     (case nodeAt root p of Some (Element t i c a l cs) \<Rightarrow> c | _ \<Rightarrow> [])"

text \<open>\<^verbatim>\<open>el.after(new)\<close>: the new node becomes the next sibling; nothing happens when
  the element has no parent.\<close>

definition insertAfter :: "node \<Rightarrow> nat list \<Rightarrow> node \<Rightarrow> node" where
  "insertAfter root p new =
     (if p = [] then root
      else updateAt root (butlast p)
             (\<lambda>parent. case parent of
                Element t i c a l cs \<Rightarrow>
                  Element t i c a l (take (last p + 1) cs @ [new] @ drop (last p + 1) cs)
              | Text d \<Rightarrow> Text d))"

definition appendChild :: "node \<Rightarrow> node \<Rightarrow> node" where
  "appendChild parent child =
     (case parent of
        Element t i c a l cs \<Rightarrow> Element t i c a l (cs @ [child])
      | Text d \<Rightarrow> Text d)"

definition setAttribute :: "string \<Rightarrow> string \<Rightarrow> (string \<times> string) list \<Rightarrow> (string \<times> string) list" where
  "setAttribute k v attrs =
     (if k \<in> set (map fst attrs)
      then map (\<lambda>(k', v'). if k' = k then (k, v) else (k', v')) attrs
      else attrs @ [(k, v)])"

text \<open>
  \<^verbatim>\<open>createToggleSwitch\<close> (lines 381-403) returns HTML text, and the script assigns it
  to \<^verbatim>\<open>innerHTML\<close>; the model gives the nodes that text parses to: the pill with the
  knob inside, and the white space of the template around them. Runs of white space
  inside the two style attributes are written as one blank.
\<close>

definition createToggleSwitch :: "bool \<Rightarrow> node list" where
  "createToggleSwitch isEnabled =
     [Text [CHR 0x0A, CHR '' '', CHR '' '', CHR '' '', CHR '' ''],
      Element ''div'' [] ''toggle-switch''
        [(''style'', ''position: relative; width: 40px; height: 20px; background-color: '' @
            (if isEnabled then ''#1DB954'' else ''#535353'') @
            ''; border-radius: 10px; transition: background-color 0.3s;'')] []
        [Text [CHR 0x0A, CHR '' '', CHR '' '', CHR '' '', CHR '' '', CHR '' '', CHR '' ''],
         Element ''div'' [] ''toggle-slider''
           [(''style'', ''position: absolute; top: 2px; left: '' @
               (if isEnabled then ''22px'' else ''2px'') @
               ''; width: 16px; height: 16px; background-color: white; border-radius: 50%; transition: left 0.3s;'')]
           [] [],
         Text [CHR 0x0A, CHR '' '', CHR '' '', CHR '' '', CHR '' '']],
      Text [CHR 0x0A, CHR '' '', CHR '' '']]"

definition toggleTitle :: "bool \<Rightarrow> string" where
  "toggleTitle enabled =
     (if enabled then ''Click to disable persistent privacy mode''
      else ''Click to enable persistent privacy mode'')"

definition TOGGLE_STYLE :: string where
  "TOGGLE_STYLE = ''width:40px;height:20px;display:flex;align-items:center;justify-content:center;''"

text \<open>Lines 429-430 and 567-568, 586-587: set \<^verbatim>\<open>innerHTML\<close> and \<^verbatim>\<open>title\<close>.\<close>

definition showToggle :: "bool \<Rightarrow> node \<Rightarrow> node" where
  "showToggle enabled n =
     (case n of
        Element t i c a l cs \<Rightarrow>
          Element t i c (setAttribute ''title'' (toggleTitle enabled) a) l
            (createToggleSwitch enabled)
      | Text d \<Rightarrow> Text d)"

definition ensureToggleContainer :: "node \<Rightarrow> node \<times> nat list" where
  "ensureToggleContainer button =
     (case elementsBy button (ByClass ''sidebar-checkbox'') of
        q # _ \<Rightarrow> (button, q)
      | [] \<Rightarrow>
          (appendChild button
             (Element ''span'' [] ''sidebar-checkbox'' [(''style'', TOGGLE_STYLE)] [] []),
           [length (childNodes button)]))"

definition updateToggleContainer :: "state \<Rightarrow> node \<Rightarrow> node" where
  "updateToggleContainer s button =
     (let (button1, toggleContainer) = ensureToggleContainer button
      in updateAt button1 toggleContainer (showToggle (persistentModeEnabled s)))"

text \<open>\<^verbatim>\<open>updatePersistentMenuItemState\<close> (lines 409-418), called with the item to update,
  as the script always calls it.\<close>

definition updatePersistentMenuItemState :: "node \<Rightarrow> nat list \<Rightarrow> state \<Rightarrow> node" where
  "updatePersistentMenuItemState menuList targetItem s =
     (case nodeAt menuList targetItem of
        None \<Rightarrow> menuList
      | Some target \<Rightarrow>
          (case elementsBy target (ByTag ''button'') of
             [] \<Rightarrow> menuList
           | button # _ \<Rightarrow> updateAt menuList (targetItem @ button) (updateToggleContainer s)))"

definition findItemByText :: "node \<Rightarrow> string \<Rightarrow> nat list option" where
  "findItemByText menuList txt =
     (let items = elementsBy menuList (ByTag ''span'')
      in case List.find (\<lambda>item. textContentAt menuList item = txt) items of
           Some item \<Rightarrow> closest menuList item (ByTag ''button'')
         | None \<Rightarrow> None)"

definition findPrivateSessionItem :: "node \<Rightarrow> nat \<Rightarrow> env \<Rightarrow> state \<Rightarrow> nat list option \<times> state" where
  "findPrivateSessionItem menuList retryCount e s =
     (let MAX_RETRIES = 10; RETRY_DELAY = 100;
          privateSessionSpan =
            List.find (\<lambda>span. textContentAt menuList span = PS_PRIVATE_SESSION_LABEL_TEXT)
              (elementsBy menuList (ByTag ''span''))
      in case privateSessionSpan of
           None \<Rightarrow>
             (None,
              if retryCount < MAX_RETRIES
              then snd (setTimeout (RetryAddItem (retryCount + 1)) RETRY_DELAY e s)
              else s)
         | Some span \<Rightarrow> (closest menuList span (ByTag ''li''), s))"

definition createToggleElement :: "state \<Rightarrow> node" where
  "createToggleElement s =
     Element ''span'' [] ''sidebar-checkbox''
       [(''style'', TOGGLE_STYLE), (''title'', toggleTitle (persistentModeEnabled s))] []
       (createToggleSwitch (persistentModeEnabled s))"

definition createMenuButton :: "state \<Rightarrow> node" where
  "createMenuButton s =
     (let label = Element ''span'' [] [] [] [] [Text PS_PERSISTENT_SESSION_LABEL_TEXT];
          toggle = createToggleElement s
      in Element ''div'' [] ''main-contextMenu-menuItemButton''
           [(''style'', ''display:flex;align-items:center;padding:8px 12px;cursor:pointer;justify-content:space-between;''),
            (''role'', ''menuitem'')]
           [''mouseover'', ''mouseout'', ''click'']
           [label, toggle])"

definition createPersistentMenuItem :: "string \<Rightarrow> state \<Rightarrow> node" where
  "createPersistentMenuItem privateSessionItemClass s =
     Element ''li'' PS_PERSISTENT_ITEM_ID privateSessionItemClass [] [] [createMenuButton s]"

definition addPersistentPrivacyItem ::
    "node \<Rightarrow> nat \<Rightarrow> env \<Rightarrow> state \<Rightarrow> node option \<times> node \<times> state" where
  "addPersistentPrivacyItem menuList retryCount e s =
     (let (privateSessionItem, s1) = findPrivateSessionItem menuList retryCount e s
      in case privateSessionItem of
           None \<Rightarrow> (None, menuList, s1)
         | Some item \<Rightarrow>
             (let menuItem = createPersistentMenuItem (classNameAt menuList item) s1
              in (Some menuItem, insertAfter menuList item menuItem, s1)))"

text \<open>\<^verbatim>\<open>ensurePersistentMenuItem\<close> (lines 596-615) returns nothing; the model returns the
  menu list as the call leaves it, and the state.\<close>

definition ensurePersistentMenuItem :: "node option \<Rightarrow> env \<Rightarrow> state \<Rightarrow> node option \<times> state" where
  "ensurePersistentMenuItem menuList e s =
     (case menuList of
        None \<Rightarrow> (None, s)
      | Some ml \<Rightarrow>
          (case findItemByText ml PS_PRIVATE_SESSION_LABEL_TEXT of
             None \<Rightarrow> (Some ml, s)
           | Some privateSessionButton \<Rightarrow>
               (case elementsBy ml (ById PS_PERSISTENT_ITEM_ID) of
                  persistentItem # _ \<Rightarrow> (Some (updatePersistentMenuItemState ml persistentItem s), s)
                | [] \<Rightarrow>
                    (let (persistentItem, ml', s') = addPersistentPrivacyItem ml 0 e s
                     in (Some ml', s')))))"

subsection \<open>The menu observer (lines 617-771)\<close>

text \<open>
  The mutation observer's callback gets the changes the host has made to the document
  since its last call: for each change the nodes added and the nodes removed.
  \<^verbatim>\<open>PROFILE_DROPDOWN_MENU.split(', ')\<close> gives three selectors.
\<close>

record mutation =
  addedNodes :: "node list"
  removedNodes :: "node list"

definition menuSelectors :: "selector list" where
  "menuSelectors =
     [ByTagClass ''ul'' ''main-contextMenu-menu'',
      ByAttribute ''role'' ''menu'',
      ByTagAttribute ''ul'' ''role'' ''menu'']"

text \<open>\<^verbatim>\<open>node.nodeType === 1\<close>.\<close>

definition isElementNode :: "node \<Rightarrow> bool" where
  "isElementNode n = (case n of Element t i c a l cs \<Rightarrow> True | Text d \<Rightarrow> False)"

primrec findMenuInNode_from :: "selector list \<Rightarrow> node \<Rightarrow> node option" where
  "findMenuInNode_from [] n = None"
| "findMenuInNode_from (sel # sels) n =
     (case (if matchesSelector sel n then Some n else querySelector_in n sel) of
        Some menuList \<Rightarrow> Some menuList
      | None \<Rightarrow> findMenuInNode_from sels n)"

definition findMenuInNode :: "node \<Rightarrow> node option" where
  "findMenuInNode n = findMenuInNode_from menuSelectors n"

definition isMenuNode :: "node \<Rightarrow> bool" where
  "isMenuNode n = list_ex (\<lambda>sel. matchesSelector sel n) menuSelectors"

text \<open>\<^verbatim>\<open>processAddedNodes\<close> returns \<^verbatim>\<open>{ appeared, menuList }\<close>.\<close>

primrec processAddedNodes :: "node list \<Rightarrow> bool \<times> node option" where
  "processAddedNodes [] = (False, None)"
| "processAddedNodes (n # ns) =
     (if isElementNode n then
        (case findMenuInNode n of
           Some menuList \<Rightarrow> (True, Some menuList)
         | None \<Rightarrow> processAddedNodes ns)
      else processAddedNodes ns)"

primrec processRemovedNodes :: "node list \<Rightarrow> bool" where
  "processRemovedNodes [] = False"
| "processRemovedNodes (n # ns) =
     (if isElementNode n then
        (let isMenu = isMenuNode n;
             containsItem = querySelector_in n (ById PS_PERSISTENT_ITEM_ID)
         in if isMenu \<or> containsItem \<noteq> None then True else processRemovedNodes ns)
      else processRemovedNodes ns)"

definition isProfileMenu :: "node \<Rightarrow> bool" where
  "isProfileMenu menuList =
     (let privateSessionSpan =
            List.find (\<lambda>span. textContent span = PS_PRIVATE_SESSION_LABEL_TEXT)
              (querySelectorAll_in menuList (ByTag ''span''));
          hasSettingsItem =
            list_ex (\<lambda>span. textContent span = ''Settings'')
              (querySelectorAll_in menuList (ByTag ''span''))
      in privateSessionSpan \<noteq> None \<or> hasSettingsItem)"

text \<open>
  \<^verbatim>\<open>handleMenuAppearance\<close> (lines 689-707). \<^verbatim>\<open>ensurePersistentMenuItem\<close> changes the
  menu list in place; a change is written to the trace. Then the function sets
  \<^verbatim>\<open>menuItemAdded\<close> and writes the time into \<^verbatim>\<open>lastMenuOperationTime\<close>.
\<close>

definition handleMenuAppearance :: "node \<Rightarrow> env \<Rightarrow> state \<Rightarrow> state" where
  "handleMenuAppearance menuList e s =
     (if \<not> isProfileMenu menuList then s
      else
        (let privateSessionSpan =
               List.find (\<lambda>span. textContent span = PS_PRIVATE_SESSION_LABEL_TEXT)
                 (querySelectorAll_in menuList (ByTag ''span''))
         in case privateSessionSpan of
              Some span \<Rightarrow>
                (let (menuList', s1) = ensurePersistentMenuItem (Some menuList) e s;
                     s2 = (case menuList' of
                             Some ml \<Rightarrow>
                               if ml = menuList then s1
                               else s1\<lparr>trace := trace s1 @ [Rewrite menuList ml]\<rparr>
                           | None \<Rightarrow> s1)
                 in s2\<lparr>menuItemAdded := True, lastMenuOperationTime := now e\<rparr>)
            | None \<Rightarrow> s))"

definition handleMenuDisappearance :: "state \<Rightarrow> state" where
  "handleMenuDisappearance s = s\<lparr>menuItemAdded := False\<rparr>"

text \<open>\<^verbatim>\<open>analyzeMutations\<close> returns \<^verbatim>\<open>{ menuAppeared, menuDisappeared,
  detectedMenuList }\<close>; the loop stops at the first change that shows a menu appearing or
  disappearing.\<close>

primrec analyzeMutations :: "mutation list \<Rightarrow> state \<Rightarrow> bool \<times> bool \<times> node option" where
  "analyzeMutations [] s = (False, False, None)"
| "analyzeMutations (m # ms) s =
     (let (appeared, menuList) =
            (if \<not> menuItemAdded s then processAddedNodes (addedNodes m) else (False, None))
      in if appeared then (True, False, menuList)
         else if menuItemAdded s \<and> processRemovedNodes (removedNodes m) then (False, True, None)
         else analyzeMutations ms s)"

definition handleMenuStateChanges :: "bool \<times> bool \<times> node option \<Rightarrow> env \<Rightarrow> state \<Rightarrow> state" where
  "handleMenuStateChanges menuState e s =
     (let (menuAppeared, menuDisappeared, detectedMenuList) = menuState;
          s1 = (if menuDisappeared then handleMenuDisappearance s else s)
      in case detectedMenuList of
           Some menuList \<Rightarrow>
             if menuAppeared \<and> \<not> menuItemAdded s1 then handleMenuAppearance menuList e s1
             else s1
         | None \<Rightarrow> s1)"

definition handleMutations :: "mutation list \<Rightarrow> env \<Rightarrow> state \<Rightarrow> state" where
  "handleMutations mutations e s = handleMenuStateChanges (analyzeMutations mutations s) e s"

subsection \<open>Running one call\<close>

text \<open>
  One call on its own. Between its stretches other callbacks of the script run: a
  pending \<^verbatim>\<open>menuCloseTimer\<close> timeout fires, or the mutation observer is called with the
  changes the host has made to the document. The steps are the resumptions of the call,
  the firings and the observer's calls, each with what the host shows then.
\<close>

datatype step = Resume env | Fire nat env | Observe "mutation list" env

definition stepEnv :: "step \<Rightarrow> env" where
  "stepEnv st = (case st of Resume e \<Rightarrow> e | Fire t e \<Rightarrow> e | Observe ms e \<Rightarrow> e)"

text \<open>A pending \<^verbatim>\<open>menuCloseTimer\<close> timeout fires: it leaves the table and its callback
  runs. Other ids do nothing here.\<close>

definition fireTimeout :: "nat \<Rightarrow> env \<Rightarrow> state \<Rightarrow> state" where
  "fireTimeout t e s =
     (case map_of (timeouts s) t of
        Some (due, MenuCloseCheck b) \<Rightarrow>
          menuCloseCheck b e (s\<lparr>timeouts := filter (\<lambda>(i, _). i \<noteq> t) (timeouts s)\<rparr>)
      | _ \<Rightarrow> s)"

text \<open>What a step that is not a resumption of the call does to the state.\<close>

definition between :: "step \<Rightarrow> state \<Rightarrow> state" where
  "between st s =
     (case st of
        Resume e \<Rightarrow> s
      | Fire t e \<Rightarrow> fireTimeout t e s
      | Observe ms e \<Rightarrow> if menuObserverInstalled s then handleMutations ms e s else s)"

text \<open>
  \<open>exec\<close> follows the steps until the call has finished or the steps are used up, and
  gives the environment of the call's last stretch, what the call has become, and the
  steps left over.
\<close>

fun exec :: "step list \<Rightarrow> env \<times> 'a run \<Rightarrow> (env \<times> 'a run) \<times> step list" where
  "exec (Resume e # sts) (e0, Suspend l d s c) = exec sts (e, c e s)"
| "exec (st # sts) (e0, Suspend l d s c) = exec sts (e0, Suspend l d (between st s) c)"
| "exec sts (e0, r) = ((e0, r), sts)"

primrec state_of :: "'a run \<Rightarrow> state" where
  "state_of (Return x s) = s"
| "state_of (Raise err s) = s"
| "state_of (Suspend l d s c) = s"

text \<open>The variables as the script initializes them (lines 26-32), nothing stored, no
  listener, no timer, no observer.\<close>

definition initial_state :: state where
  "initial_state =
     \<lparr>persistentModeEnabled = False, focusEventListener = None, menuItemAdded = False,
      menuOperationInProgress = False, lastMenuOperationTime = 0, pendingFocusCheck = False,
      menuCloseTimer = None, localStorage = Map.empty, closureCount = 0,
      windowFocusListeners = [], documentVisibilityListeners = [], timerCount = 0,
      timeouts = [], menuObserverInstalled = False, trace = []\<rparr>"

subsection \<open>The callers of \<^verbatim>\<open>startPrivateSession\<close> (lines 330-364, 788-824)\<close>

text \<open>The focus listener (lines 330-364): it schedules the delayed focus check unless one
  is pending.\<close>

definition focusEventListener_body :: "env \<Rightarrow> state \<Rightarrow> state" where
  "focusEventListener_body e s =
     (if \<not> pendingFocusCheck s
      then snd (setTimeout FocusCheck 500 e (s\<lparr>pendingFocusCheck := True\<rparr>))
      else s)"

text \<open>The delayed focus check (lines 338-360).\<close>

definition focusCheck :: "unit async" where
  "focusCheck e s0 =
     (let (openMenu, s1) =
            document_querySelector PROFILE_DROPDOWN_MENU e (s0\<lparr>pendingFocusCheck := False\<rparr>)
      in if \<not> persistentModeEnabled s1 \<or> menuOperationInProgress s1 \<or> openMenu \<noteq> None
         then Return () s1
         else bindA (isPrivateSessionActive e s1)
                (\<lambda>isActive e1 s2.
                   if \<not> isActive \<and> persistentModeEnabled s2
                   then bindA (startPrivateSession True e1 s2) (\<lambda>_ e2 s3. Return () s3) e1
                   else Return () s2)
                e)"

text \<open>\<^verbatim>\<open>initializePrivateSession\<close> (lines 788-824). \<^verbatim>\<open>setupMenuObserver\<close> (lines
  763-771) installs the mutation observer.\<close>

definition setupMenuObserver :: "state \<Rightarrow> state" where
  "setupMenuObserver s = s\<lparr>menuObserverInstalled := True\<rparr>"

definition initializePrivateSession :: "unit async" where
  "initializePrivateSession e s =
     bindA (isPrivateSessionActive e (setupMenuObserver (loadPersistentModeSetting s)))
       (\<lambda>_ e1 s1.
          sleep 812 800
            (\<lambda>e2 s2. bindA (isPrivateSessionActive e2 s2)
               (\<lambda>isActive e3 s3.
                  if \<not> isActive
                  then bindA (startPrivateSession True e3 s3) (\<lambda>_ e4 s4. Return () s4) e3
                  else Return () s3)
               e2)
            e1 (if persistentModeEnabled s1 then enablePersistentMode s1 else s1))
       e"

subsection \<open>The event loop\<close>

text \<open>
  The script runs on one thread: the host runs one stretch of it at a time, each to its
  next \<^verbatim>\<open>await\<close> on a timer. A configuration is the clock, the shared state and the
  tasks: each task with the time from which it may resume and what remains of it. An
  event starts a task (the initialization, a direct call of \<^verbatim>\<open>startPrivateSession\<close>,
  or the focus check when its timeout fires), delivers a focus event to the window's
  listeners, calls the installed mutation observer with the changes of the document,
  resumes a task whose timer is due, or fires a due timeout. An event that the
  clock does not allow gives \<open>None\<close>, and so does the retry of
  \<^verbatim>\<open>addPersistentPrivacyItem\<close>, which works on a menu list that the loop does not hold.
\<close>

datatype action =
    Initialize
  | CallStart bool
  | FocusEvent
  | Mutations "mutation list"
  | ResumeTask nat
  | FireTimer nat

type_synonym config = "int \<times> state \<times> (int \<times> unit run) list"

definition wake :: "env \<Rightarrow> 'a run \<Rightarrow> int" where
  "wake e r = (case r of Suspend l d s c \<Rightarrow> now e + int d | _ \<Rightarrow> now e)"

definition spawn :: "env \<Rightarrow> unit run \<Rightarrow> (int \<times> unit run) list \<Rightarrow> config" where
  "spawn e r ts = (now e, state_of r, ts @ [(wake e r, r)])"

fun dispatch :: "action \<times> env \<Rightarrow> config \<Rightarrow> config option" where
  "dispatch (a, e) (clock, s, ts) =
     (if now e < clock then None
      else case a of
        Initialize \<Rightarrow> Some (spawn e (initializePrivateSession e s) ts)
      | CallStart forceOpen \<Rightarrow>
          Some (spawn e (bindA (startPrivateSession forceOpen e s) (\<lambda>_ e' s'. Return () s') e) ts)
      | FocusEvent \<Rightarrow>
          Some (now e, foldl (\<lambda>s' f. focusEventListener_body e s') s (windowFocusListeners s), ts)
      | Mutations ms \<Rightarrow>
          (if menuObserverInstalled s then Some (now e, handleMutations ms e s, ts) else None)
      | ResumeTask i \<Rightarrow>
          (if i < length ts then
             (case ts ! i of
                (w, Suspend l d s0 c) \<Rightarrow>
                  if w \<le> now e
                  then (let r = c e s in Some (now e, state_of r, ts[i := (wake e r, r)]))
                  else None
              | _ \<Rightarrow> None)
           else None)
      | FireTimer t \<Rightarrow>
          (case map_of (timeouts s) t of
             None \<Rightarrow> None
           | Some (due, cb) \<Rightarrow>
               if due \<le> now e then
                 (let s' = s\<lparr>timeouts := filter (\<lambda>(i, _). i \<noteq> t) (timeouts s)\<rparr>
                  in case cb of
                       MenuCloseCheck b \<Rightarrow> Some (now e, menuCloseCheck b e s', ts)
                     | FocusCheck \<Rightarrow> Some (spawn e (focusCheck e s') ts)
                     | RetryAddItem n \<Rightarrow> None)
               else None))"

fun event_loop :: "(action \<times> env) list \<Rightarrow> config \<Rightarrow> config option" where
  "event_loop [] cfg = Some cfg"
| "event_loop (ae # rest) cfg =
     (case dispatch ae cfg of None \<Rightarrow> None | Some cfg' \<Rightarrow> event_loop rest cfg')"

text \<open>
  A task is inside a composite menu operation, between \<^verbatim>\<open>prepareMenuOperation\<close> and
  \<^verbatim>\<open>cleanupMenuOperation\<close>, exactly when it is suspended at one of the awaits of
  \<^verbatim>\<open>openMainMenu\<close> (lines 232, 240, and 56 in \<^verbatim>\<open>getElement\<close>) or of
  \<^verbatim>\<open>activatePrivateSessionMenuItem\<close> (lines 256, and 84 in
  \<^verbatim>\<open>findMenuItemButton\<close>): \<^verbatim>\<open>handlePrivateSessionActivation\<close> is the only caller of
  both, and they are the only callers of the two locators.
\<close>

definition in_flight :: "'a run \<Rightarrow> bool" where
  "in_flight r = (case r of Suspend l d s c \<Rightarrow> l \<in> set [56, 84, 232, 240, 256] | _ \<Rightarrow> False)"

definition operationsInFlight :: "config \<Rightarrow> nat" where
  "operationsInFlight cfg = length (filter (\<lambda>(w, r). in_flight r) (snd (snd cfg)))"

subsection \<open>Pages and inputs for the concrete runs\<close>

definition page :: "(string \<times> node list) list \<Rightarrow> string \<Rightarrow> node list" where
  "page assoc sel = (case map_of assoc sel of None \<Rightarrow> [] | Some els \<Rightarrow> els)"

definition menuButton :: node where
  "menuButton = Element ''button'' [] ''main-userWidget-box'' [] [] []"

definition sessionItem :: "bool \<Rightarrow> node" where
  "sessionItem checked =
     Element ''button'' [] [] [(''role'', ''menuitemcheckbox'')] []
       (Element ''span'' [] [] [] [] [Text ''Private session'']
        # (if checked then [Element ''svg'' [] [] [] [] []] else []))"

definition indicatorContainer :: node where
  "indicatorContainer =
     Element ''div'' [] [] [] []
       [Element ''button'' [] [] [] [] [Text ''Private session'']]"

text \<open>The page at time \<open>t\<close> with no private-session indicator and no menu.\<close>

definition inactive :: "int \<Rightarrow> env" where
  "inactive t = \<lparr>now = t, matches = page []\<rparr>"

text \<open>The page at time \<open>t\<close> with the private-session indicator shown.\<close>

definition active :: "int \<Rightarrow> env" where
  "active t = \<lparr>now = t, matches = page [(PRIVATE_SESSION_INDICATOR_CONTAINER, [indicatorContainer])]\<rparr>"

text \<open>The page with the account button and, once clicked open, the menu with the
  private-session item, checked or not.\<close>

definition menuOpen :: "bool \<Rightarrow> int \<Rightarrow> env" where
  "menuOpen checked t =
     \<lparr>now = t,
      matches = page [(MAIN_MENU, [menuButton]), (MENU_ITEM_BUTTON, [sessionItem checked])]\<rparr>"

definition profileMenu :: node where
  "profileMenu =
     Element ''ul'' [] ''main-contextMenu-menu'' [(''role'', ''menu'')] []
       [Element ''li'' [] ''main-contextMenu-menuItem'' [] []
          [Element ''button'' [] ''main-contextMenu-menuItemButton''
             [(''role'', ''menuitemcheckbox'')] []
             [Element ''span'' [] [] [] [] [Text ''Private session'']]],
        Element ''li'' [] ''main-contextMenu-menuItem'' [] []
          [Element ''button'' [] ''main-contextMenu-menuItemButton'' [(''role'', ''menuitem'')] []
             [Element ''span'' [] [] [] [] [Text ''Settings'']]]]"

text \<open>The state after \<^verbatim>\<open>setupMenuObserver\<close>, and the change of the document by which
  the host shows the profile menu.\<close>

definition observing :: state where
  "observing = setupMenuObserver initial_state"

definition menuAppears :: "mutation list" where
  "menuAppears = [\<lparr>addedNodes = [Element ''div'' [] [] [] [] [profileMenu]], removedNodes = []\<rparr>]"

text \<open>The page with the account button and no menu item.\<close>

definition menuClosed :: "int \<Rightarrow> env" where
  "menuClosed t = \<lparr>now = t, matches = page [(MAIN_MENU, [menuButton])]\<rparr>"

text \<open>The state of a start with persistent mode saved as enabled.\<close>

definition savedEnabled :: state where
  "savedEnabled = initial_state\<lparr>localStorage := [STORAGE_KEY \<mapsto> ''true'']\<rparr>"

text \<open>
  A start with persistent mode saved as enabled and no private session active, and a
  window focus event 450 ms after it. The initialization (task 0) waits 800 ms and then
  calls \<^verbatim>\<open>startPrivateSession(true)\<close> at 1001200; the focus check (task 1, started by
  timer 4 at 1000950) calls it at 1001150. Each event comes no earlier than the timer it
  answers is due.
\<close>

definition overlap_schedule :: "(action \<times> env) list" where
  "overlap_schedule =
     [(Initialize, inactive 1000000),
      (ResumeTask 0, inactive 1000100),
      (ResumeTask 0, inactive 1000200),
      (FocusEvent, inactive 1000450),
      (FireTimer 4, inactive 1000950),
      (ResumeTask 0, inactive 1001000),
      (ResumeTask 1, inactive 1001050),
      (ResumeTask 0, inactive 1001100),
      (ResumeTask 1, inactive 1001150),
      (ResumeTask 0, inactive 1001200),
      (ResumeTask 1, inactive 1001250),
      (ResumeTask 0, inactive 1001300),
      (ResumeTask 1, inactive 1001350),
      (ResumeTask 0, inactive 1001400)]"

subsection \<open>A property of every state a call passes through\<close>

text \<open>\<open>always P r\<close>: \<open>P\<close> holds of the state at every point at which \<open>r\<close> suspends or
  finishes, whatever the host shows at each resumption, as long as \<open>P\<close> holds of the state
  the call is resumed in.\<close>

primrec always :: "(state \<Rightarrow> bool) \<Rightarrow> 'a run \<Rightarrow> bool" where
  "always P (Return x s) = P s"
| "always P (Raise err s) = P s"
| "always P (Suspend l d s c) = (P s \<and> (\<forall>e s'. P s' \<longrightarrow> always P (c e s')))"

definition recent :: "int \<Rightarrow> state \<Rightarrow> bool" where
  "recent T s = (T \<le> lastMenuOperationTime s)"

text \<open>\<open>safe Q ok e r\<close>: like \<open>always\<close>, for a property of the host's view and the state
  together. If \<open>ok\<close> holds, \<open>Q\<close> holds where \<open>r\<close> first suspends or finishes, and from
  every resumption \<open>e'\<close>, \<open>s'\<close> on, \<open>Q\<close> is kept if it holds at that resumption.\<close>

primrec safe :: "(env \<Rightarrow> state \<Rightarrow> bool) \<Rightarrow> bool \<Rightarrow> env \<Rightarrow> 'a run \<Rightarrow> bool" where
  "safe Q ok e (Return x s) = (ok \<longrightarrow> Q e s)"
| "safe Q ok e (Raise err s) = (ok \<longrightarrow> Q e s)"
| "safe Q ok e (Suspend l d s c) = ((ok \<longrightarrow> Q e s) \<and> (\<forall>e' s'. safe Q (Q e' s') e' (c e' s')))"

text \<open>The recorded time of the last menu operation is at least \<open>T\<close> and not in the
  future.\<close>

definition timely :: "int \<Rightarrow> env \<Rightarrow> state \<Rightarrow> bool" where
  "timely T e s = (T \<le> lastMenuOperationTime s \<and> lastMenuOperationTime s \<le> now e)"

text \<open>Every task of the event loop keeps \<open>timely\<close> from its next resumption on.\<close>

definition goodTasks :: "(int \<times> 'a run) list \<Rightarrow> bool" where
  "goodTasks ts = (\<forall>T e. \<forall>(w, r) \<in> set ts. safe (timely T) False e r)"

section \<open>Properties\<close>

subsection \<open>Persistence\<close>

lemma persistentModeEnabled_save [simp]:
  "persistentModeEnabled (savePersistentModeSetting s) = persistentModeEnabled s"
  by (simp add: savePersistentModeSetting_def)

lemma focusEventListener_save [simp]:
  "focusEventListener (savePersistentModeSetting s) = focusEventListener s"
  by (simp add: savePersistentModeSetting_def)

lemma listeners_save [simp]:
  "windowFocusListeners (savePersistentModeSetting s) = windowFocusListeners s"
  "documentVisibilityListeners (savePersistentModeSetting s) = documentVisibilityListeners s"
  by (simp_all add: savePersistentModeSetting_def)

lemma localStorage_save [simp]:
  "localStorage (savePersistentModeSetting s) STORAGE_KEY = Some (toString (persistentModeEnabled s))"
  by (simp add: savePersistentModeSetting_def)

text \<open>
  C3. Saving the flag as true and loading gives true; saving false and loading gives
  false; loading when the key holds nothing gives false; and with any string \<open>v\<close> stored
  under the key, loading sets the flag to true exactly when \<open>v\<close> is the string "true".
\<close>

theorem persistence_round_trip:
  "persistentModeEnabled (loadPersistentModeSetting
      (savePersistentModeSetting (s\<lparr>persistentModeEnabled := True\<rparr>))) = True
   \<and> persistentModeEnabled (loadPersistentModeSetting
      (savePersistentModeSetting (s\<lparr>persistentModeEnabled := False\<rparr>))) = False
   \<and> persistentModeEnabled (loadPersistentModeSetting
      (s\<lparr>localStorage := (localStorage s)(STORAGE_KEY := None)\<rparr>)) = False
   \<and> persistentModeEnabled (loadPersistentModeSetting
      (s\<lparr>localStorage := (localStorage s)(STORAGE_KEY \<mapsto> v)\<rparr>)) = (v = ''true'')"
  by (simp add: loadPersistentModeSetting_def toString_def)

subsection \<open>Persistent mode\<close>

text \<open>
  C9. After \<^verbatim>\<open>enablePersistentMode\<close>, \<^verbatim>\<open>disablePersistentMode\<close> and
  \<^verbatim>\<open>togglePersistentMode\<close>, local storage holds under the key the string form of the
  flag.
\<close>

theorem stored_value_is_flag:
  "localStorage (enablePersistentMode s) STORAGE_KEY
     = Some (toString (persistentModeEnabled (enablePersistentMode s)))
   \<and> localStorage (disablePersistentMode s) STORAGE_KEY
     = Some (toString (persistentModeEnabled (disablePersistentMode s)))
   \<and> localStorage (togglePersistentMode s) STORAGE_KEY
     = Some (toString (persistentModeEnabled (togglePersistentMode s)))"
  by (simp add: enablePersistentMode_def disablePersistentMode_def togglePersistentMode_def
      savePersistentModeSetting_def Let_def split: option.split)

lemma listenersConsistent_initially:
  "listenersConsistent s"
  if "windowFocusListeners s = []" and "focusEventListener s = None"
  using that by (simp add: listenersConsistent_def)

lemma listenersConsistent_preserved:
  assumes "listenersConsistent s"
  shows "listenersConsistent (loadPersistentModeSetting s)"
    and "listenersConsistent (savePersistentModeSetting s)"
    and "listenersConsistent (enablePersistentMode s)"
    and "listenersConsistent (disablePersistentMode s)"
    and "listenersConsistent (togglePersistentMode s)"
  using assms
  by (auto simp add: listenersConsistent_def loadPersistentModeSetting_def
      savePersistentModeSetting_def enablePersistentMode_def disablePersistentMode_def
      togglePersistentMode_def removeEventListener_def Let_def split: option.splits)

text \<open>
  C4. Two toggles in a row, from any state, give the flag its first value back, and the
  variable \<^verbatim>\<open>focusEventListener\<close> then holds a function exactly when the flag is true.
  From any state in which the window's focus listeners and the variable agree, as they
  do when the script starts and after each of its operations, the window then has a focus
  listener exactly when the flag is true: its list is empty when the flag is false, and
  holds exactly the function in the variable when the flag is true.
\<close>

theorem toggle_twice:
  "persistentModeEnabled (togglePersistentMode (togglePersistentMode s))
     = persistentModeEnabled s
   \<and> (focusEventListener (togglePersistentMode (togglePersistentMode s)) \<noteq> None)
     = persistentModeEnabled s
   \<and> (listenersConsistent s \<longrightarrow>
        focusListenerInstalled (togglePersistentMode (togglePersistentMode s))
          = persistentModeEnabled s
        \<and> windowFocusListeners (togglePersistentMode (togglePersistentMode s))
          = (case focusEventListener (togglePersistentMode (togglePersistentMode s)) of
               None \<Rightarrow> []
             | Some f \<Rightarrow> [f]))"
  by (auto simp add: enablePersistentMode_def disablePersistentMode_def togglePersistentMode_def
      savePersistentModeSetting_def focusListenerInstalled_def listenersConsistent_def
      removeEventListener_def Let_def split: option.splits)

text \<open>From the start, with persistent mode off and no listener; and from the state
  after \<^verbatim>\<open>enablePersistentMode\<close>, with the mode on and the listener installed.\<close>

theorem toggle_twice_witness:
  "listenersConsistent initial_state
   \<and> \<not> persistentModeEnabled (togglePersistentMode (togglePersistentMode initial_state))
   \<and> \<not> focusListenerInstalled (togglePersistentMode (togglePersistentMode initial_state))
   \<and> windowFocusListeners (togglePersistentMode (togglePersistentMode initial_state)) = []
   \<and> listenersConsistent (enablePersistentMode initial_state)
   \<and> persistentModeEnabled
        (togglePersistentMode (togglePersistentMode (enablePersistentMode initial_state)))
   \<and> focusListenerInstalled
        (togglePersistentMode (togglePersistentMode (enablePersistentMode initial_state)))
   \<and> windowFocusListeners
        (togglePersistentMode (togglePersistentMode (enablePersistentMode initial_state))) = [2]
   \<and> focusEventListener
        (togglePersistentMode (togglePersistentMode (enablePersistentMode initial_state)))
      = Some 2"
proof -
  have a: "listenersConsistent initial_state"
    by (simp add: listenersConsistent_def initial_state_def)
  have b: "listenersConsistent (enablePersistentMode initial_state)"
    by (simp add: listenersConsistent_def initial_state_def enablePersistentMode_def
        savePersistentModeSetting_def Let_def)
  have c: "\<not> persistentModeEnabled initial_state"
    "persistentModeEnabled (enablePersistentMode initial_state)"
    "focusEventListener
        (togglePersistentMode (togglePersistentMode (enablePersistentMode initial_state)))
      = Some 2"
    by (simp_all add: initial_state_def enablePersistentMode_def disablePersistentMode_def
        togglePersistentMode_def savePersistentModeSetting_def Let_def)
  from toggle_twice [of initial_state] toggle_twice [of "enablePersistentMode initial_state"]
    a b c
  show ?thesis by (simp add: focusListenerInstalled_def)
qed

text \<open>
  C10. \<^verbatim>\<open>disablePersistentMode\<close> leaves the document's \<^verbatim>\<open>visibilitychange\<close>
  listeners as they are and takes the focus listener off the window; disabling and then
  enabling again leaves one \<^verbatim>\<open>visibilitychange\<close> listener more than before, the
  earlier ones still registered.
\<close>

theorem visibilitychange_listener_leak:
  "documentVisibilityListeners (disablePersistentMode s) = documentVisibilityListeners s
   \<and> focusEventListener (disablePersistentMode s) = None
   \<and> windowFocusListeners (disablePersistentMode s)
       = (case focusEventListener s of
            None \<Rightarrow> windowFocusListeners s
          | Some f \<Rightarrow> removeEventListener f (windowFocusListeners s))
   \<and> documentVisibilityListeners (enablePersistentMode (disablePersistentMode s))
       = documentVisibilityListeners s @ [closureCount s + 1]
   \<and> length (documentVisibilityListeners (enablePersistentMode (disablePersistentMode s)))
       = length (documentVisibilityListeners s) + 1"
  by (simp add: enablePersistentMode_def disablePersistentMode_def
      savePersistentModeSetting_def Let_def split: option.split)

subsection \<open>Running a call through \<open>bindA\<close> and \<open>catchA\<close>\<close>

lemmas loops =
  getElement_from.simps findMenuItemButton_from.simps findPrivateSessionIndicator_from.simps

lemmas const_defs =
  PS_RETRY_LIMIT_def PS_DELAY_MS_def PS_INDICATOR_RETRIES_def MENU_OPERATION_COOLDOWN_def

lemmas prims =
  sleep_def document_querySelector_def document_querySelectorAll_def click_def
  setTimeout_def clearTimeout_def

lemmas model_defs =
  startPrivateSession_def canPerformMenuOperation_def startPrivateSession_try_def
  startPrivateSession_catch_def handlePrivateSessionActivation_def prepareMenuOperation_def
  cleanupMenuOperation_def openMainMenu_def activatePrivateSessionMenuItem_def
  ensureMenuClosed_def truthy_def
  isPrivateSessionActive_def findPrivateSessionIndicator_def searchForPrivateSessionIndicator_def
  findPrivateSessionButtonInContainer_def findMenuItemButton_def searchForMenuItemButton_def
  isMenuItemWithLabel_def isMenuItemSelected_def getElement_def
  querySelectorAll_in_def querySelector_in_def trim_def isSpace_def
  PS_PRIVATE_SESSION_LABEL_TEXT_def between_def stepEnv_def

lemmas fixture_defs =
  initial_state_def page_def active_def inactive_def menuOpen_def menuClosed_def menuButton_def
  sessionItem_def indicatorContainer_def observing_def setupMenuObserver_def

lemmas observer_defs =
  handleMutations_def handleMenuStateChanges_def handleMenuAppearance_def
  handleMenuDisappearance_def isProfileMenu_def findMenuInNode_def menuSelectors_def
  isMenuNode_def isElementNode_def menuAppears_def profileMenu_def

lemmas dom_defs =
  ensurePersistentMenuItem_def findItemByText_def elementsBy_def matchesAt_def
  closest_def textContentAt_def classNameAt_def addPersistentPrivacyItem_def
  findPrivateSessionItem_def createPersistentMenuItem_def createMenuButton_def
  createToggleElement_def createToggleSwitch_def insertAfter_def
  updatePersistentMenuItemState_def PS_PERSISTENT_ITEM_ID_def
  PS_PERSISTENT_SESSION_LABEL_TEXT_def toggleTitle_def classList_def isHtmlSpace_def

lemmas loop_defs =
  dispatch.simps event_loop.simps spawn_def wake_def focusCheck_def
  initializePrivateSession_def focusEventListener_body_def in_flight_def operationsInFlight_def
  loadPersistentModeSetting_def enablePersistentMode_def savePersistentModeSetting_def
  toString_def STORAGE_KEY_def setupMenuObserver_def

lemma selectors_differ [simp]:
  "MAIN_MENU \<noteq> PROFILE_DROPDOWN_MENU" "PROFILE_DROPDOWN_MENU \<noteq> MAIN_MENU"
  "MAIN_MENU \<noteq> MENU_ITEM_BUTTON" "MENU_ITEM_BUTTON \<noteq> MAIN_MENU"
  "MAIN_MENU \<noteq> PRIVATE_SESSION_INDICATOR_CONTAINER"
  "PRIVATE_SESSION_INDICATOR_CONTAINER \<noteq> MAIN_MENU"
  "PROFILE_DROPDOWN_MENU \<noteq> MENU_ITEM_BUTTON" "MENU_ITEM_BUTTON \<noteq> PROFILE_DROPDOWN_MENU"
  "PROFILE_DROPDOWN_MENU \<noteq> PRIVATE_SESSION_INDICATOR_CONTAINER"
  "PRIVATE_SESSION_INDICATOR_CONTAINER \<noteq> PROFILE_DROPDOWN_MENU"
  "MENU_ITEM_BUTTON \<noteq> PRIVATE_SESSION_INDICATOR_CONTAINER"
  "PRIVATE_SESSION_INDICATOR_CONTAINER \<noteq> MENU_ITEM_BUTTON"
  by (simp_all add: MAIN_MENU_def PROFILE_DROPDOWN_MENU_def MENU_ITEM_BUTTON_def
      PRIVATE_SESSION_INDICATOR_CONTAINER_def)

text \<open>When the awaited call returns \<open>x\<close> with some steps left, the caller goes on with \<open>x\<close>
  in the environment and state of that moment, over the steps left.\<close>

lemma exec_bind:
  "exec steps (e0, r) = ((e1, Return x s1), rest) \<Longrightarrow>
   exec (steps @ extra) (e0, bindA r k e0) = exec (rest @ extra) (e1, k x e1 s1)"
proof (induction steps arbitrary: e0 r)
  case Nil
  then show ?case by (cases r) simp_all
next
  case (Cons st sts)
  show ?case
  proof (cases r)
    case (Suspend l d s c)
    show ?thesis
    proof (cases st)
      case (Resume e)
      with Cons.prems Suspend have "exec sts (e, c e s) = ((e1, Return x s1), rest)" by simp
      from Cons.IH [OF this] Suspend Resume show ?thesis by simp
    next
      case (Fire t e)
      with Cons.prems Suspend
      have "exec sts (e0, Suspend l d (between st s) c) = ((e1, Return x s1), rest)" by simp
      from Cons.IH [OF this] Suspend Fire show ?thesis by simp
    next
      case (Observe ms e)
      with Cons.prems Suspend
      have "exec sts (e0, Suspend l d (between st s) c) = ((e1, Return x s1), rest)" by simp
      from Cons.IH [OF this] Suspend Observe show ?thesis by simp
    qed
  qed (use Cons.prems in simp_all)
qed

text \<open>When the body of a \<^verbatim>\<open>try\<close> throws, the handler takes over at that moment.\<close>

lemma exec_catch_Raise:
  "exec steps (e0, r) = ((e1, Raise err s1), rest) \<Longrightarrow>
   exec steps (e0, catchA r h e0) = exec rest (e1, h err e1 s1)"
proof (induction steps arbitrary: e0 r)
  case Nil
  then show ?case by (cases r) simp_all
next
  case (Cons st sts)
  show ?case
  proof (cases r)
    case (Suspend l d s c)
    show ?thesis
    proof (cases st)
      case (Resume e)
      with Cons.prems Suspend have "exec sts (e, c e s) = ((e1, Raise err s1), rest)" by simp
      from Cons.IH [OF this] Suspend Resume show ?thesis by simp
    next
      case (Fire t e)
      with Cons.prems Suspend
      have "exec sts (e0, Suspend l d (between st s) c) = ((e1, Raise err s1), rest)" by simp
      from Cons.IH [OF this] Suspend Fire show ?thesis by simp
    next
      case (Observe ms e)
      with Cons.prems Suspend
      have "exec sts (e0, Suspend l d (between st s) c) = ((e1, Raise err s1), rest)" by simp
      from Cons.IH [OF this] Suspend Observe show ?thesis by simp
    qed
  qed (use Cons.prems in simp_all)
qed

lemma exec_catch_bind:
  "exec steps (e0, r) = ((e1, Return x s1), rest) \<Longrightarrow>
   exec steps (e0, catchA (bindA r k e0) h e0) = exec rest (e1, catchA (k x e1 s1) h e1)"
proof (induction steps arbitrary: e0 r)
  case Nil
  then show ?case by (cases r) simp_all
next
  case (Cons st sts)
  show ?case
  proof (cases r)
    case (Suspend l d s c)
    show ?thesis
    proof (cases st)
      case (Resume e)
      with Cons.prems Suspend have "exec sts (e, c e s) = ((e1, Return x s1), rest)" by simp
      from Cons.IH [OF this] Suspend Resume show ?thesis by simp
    next
      case (Fire t e)
      with Cons.prems Suspend
      have "exec sts (e0, Suspend l d (between st s) c) = ((e1, Return x s1), rest)" by simp
      from Cons.IH [OF this] Suspend Fire show ?thesis by simp
    next
      case (Observe ms e)
      with Cons.prems Suspend
      have "exec sts (e0, Suspend l d (between st s) c) = ((e1, Return x s1), rest)" by simp
      from Cons.IH [OF this] Suspend Observe show ?thesis by simp
    qed
  qed (use Cons.prems in simp_all)
qed

lemma always_bind:
  "always P r \<Longrightarrow> (\<And>x e s. P s \<Longrightarrow> always P (k x e s)) \<Longrightarrow> always P (bindA r k e)"
proof (induction r arbitrary: e)
  case (Suspend l d s c)
  from Suspend.IH [OF rangeI rangeI] Suspend.prems show ?case by auto
qed simp_all

lemma always_catch:
  "always P r \<Longrightarrow> (\<And>err e s. P s \<Longrightarrow> always P (h err e s)) \<Longrightarrow> always P (catchA r h e)"
proof (induction r arbitrary: e)
  case (Suspend l d s c)
  from Suspend.IH [OF rangeI rangeI] Suspend.prems show ?case by auto
qed simp_all

lemma always_state_of: "always P r \<Longrightarrow> P (state_of r)"
  by (cases r) simp_all

lemma exec_always:
  "(\<And>st s. st \<in> set steps \<Longrightarrow> P s \<Longrightarrow> P (between st s)) \<Longrightarrow> always P r \<Longrightarrow>
   exec steps (e0, r) = ((e1, r'), rest) \<Longrightarrow> always P r'"
proof (induction steps arbitrary: e0 r)
  case Nil
  then show ?case by (cases r) auto
next
  case (Cons st sts)
  have later: "\<And>st' s. st' \<in> set sts \<Longrightarrow> P s \<Longrightarrow> P (between st' s)"
    using Cons.prems(1) by simp
  show ?case
  proof (cases r)
    case (Suspend l d s c)
    have now: "P (between st s)"
      using Cons.prems(1) [of st s] Cons.prems(2) Suspend by simp
    show ?thesis
    proof (cases st)
      case (Resume e)
      with Cons.prems Suspend have "exec sts (e, c e s) = ((e1, r'), rest)" "always P (c e s)"
        by simp_all
      from Cons.IH [OF later this(2) this(1)] show ?thesis .
    next
      case (Fire t e)
      with Cons.prems Suspend now
      have "exec sts (e0, Suspend l d (between st s) c) = ((e1, r'), rest)"
        "always P (Suspend l d (between st s) c)"
        by simp_all
      from Cons.IH [OF later this(2) this(1)] show ?thesis .
    next
      case (Observe ms e)
      with Cons.prems Suspend now
      have "exec sts (e0, Suspend l d (between st s) c) = ((e1, r'), rest)"
        "always P (Suspend l d (between st s) c)"
        by simp_all
      from Cons.IH [OF later this(2) this(1)] show ?thesis .
    qed
  qed (use Cons.prems in auto)
qed

subsection \<open>The locator\<close>

text \<open>
  C6. \<^verbatim>\<open>getElement\<close> for one element. \<open>e0\<close> is what the host shows at the call and
  \<open>e1\<close>, \<open>e2\<close>, \<open>e3\<close> what it shows at the resumptions. If the selector matches at the
  first, second or third attempt, the call returns the first matching element at that
  attempt, having queried once per attempt and waited \<open>PS_DELAY_MS\<close> after each failed
  one. If it matches at none of the three attempts, the call is still suspended (at line
  56, for \<open>PS_DELAY_MS\<close>) after each of them, and returns \<^verbatim>\<open>null\<close> at the third
  resumption, after exactly three queries and three waits of \<open>PS_DELAY_MS\<close>.
\<close>

theorem getElement_attempts:
  "(matches e0 sel = el # els \<longrightarrow>
      getElement sel False e0 s
        = Return (Some (One el)) (s\<lparr>trace := trace s @ [Query sel]\<rparr>))
   \<and> (matches e0 sel = [] \<and> matches e1 sel = el # els \<longrightarrow>
      exec [Resume e1] (e0, getElement sel False e0 s)
        = ((e1, Return (Some (One el))
                 (s\<lparr>trace := trace s @ [Query sel, SetTimeout PS_DELAY_MS, Query sel],
                    timerCount := timerCount s + 1\<rparr>)), []))
   \<and> (matches e0 sel = [] \<and> matches e1 sel = [] \<and> matches e2 sel = el # els \<longrightarrow>
      exec [Resume e1, Resume e2] (e0, getElement sel False e0 s)
        = ((e2, Return (Some (One el))
                 (s\<lparr>trace := trace s @ [Query sel, SetTimeout PS_DELAY_MS, Query sel,
                                          SetTimeout PS_DELAY_MS, Query sel],
                    timerCount := timerCount s + 2\<rparr>)), []))
   \<and> (matches e0 sel = [] \<and> matches e1 sel = [] \<and> matches e2 sel = [] \<longrightarrow>
      (\<exists>st k. getElement sel False e0 s = Suspend 56 PS_DELAY_MS st k)
      \<and> (\<exists>st k. exec [Resume e1] (e0, getElement sel False e0 s)
                  = ((e1, Suspend 56 PS_DELAY_MS st k), []))
      \<and> (\<exists>st k. exec [Resume e1, Resume e2] (e0, getElement sel False e0 s)
                  = ((e2, Suspend 56 PS_DELAY_MS st k), []))
      \<and> exec [Resume e1, Resume e2, Resume e3] (e0, getElement sel False e0 s)
        = ((e3, Return None
                 (s\<lparr>trace := trace s @ [Query sel, SetTimeout PS_DELAY_MS, Query sel,
                                          SetTimeout PS_DELAY_MS, Query sel, SetTimeout PS_DELAY_MS],
                    timerCount := timerCount s + 3\<rparr>)), []))"
  by (simp add: getElement_def loops const_defs prims)

text \<open>The account button appears at the second attempt; and it never appears.\<close>

theorem getElement_attempts_witness:
  "exec [Resume (menuClosed 1100)]
     (inactive 1000, getElement MAIN_MENU False (inactive 1000) initial_state)
     = ((menuClosed 1100,
         Return (Some (One menuButton))
           (initial_state\<lparr>trace := [Query MAIN_MENU, SetTimeout PS_DELAY_MS, Query MAIN_MENU],
                          timerCount := 1\<rparr>)), [])
   \<and> exec [Resume (inactive 1100), Resume (inactive 1200), Resume (inactive 1300)]
        (inactive 1000, getElement MAIN_MENU False (inactive 1000) initial_state)
     = ((inactive 1300,
         Return None
           (initial_state\<lparr>trace := [Query MAIN_MENU, SetTimeout PS_DELAY_MS, Query MAIN_MENU,
                                     SetTimeout PS_DELAY_MS, Query MAIN_MENU, SetTimeout PS_DELAY_MS],
                          timerCount := 3\<rparr>)), [])"
  using getElement_attempts [of "inactive 1000" MAIN_MENU menuButton "[]" initial_state
      "menuClosed 1100" "inactive 1200" "inactive 1300"]
    getElement_attempts [of "inactive 1000" MAIN_MENU menuButton "[]" initial_state
      "inactive 1100" "inactive 1200" "inactive 1300"]
  by (simp add: fixture_defs)

subsection \<open>Activating the menu item\<close>

text \<open>
  C7. Let \<^verbatim>\<open>findMenuItemButton\<close>, run over any steps, have located the private-session
  item \<open>item\<close> at the end of those steps, in state \<open>s1\<close>. Then
  \<^verbatim>\<open>activatePrivateSessionMenuItem\<close> over the same steps, when the item has the checked
  marker, returns true in that very state: no click and nothing else is added to the
  trace. When the item has no marker, it clicks the item, waits \<open>PS_DELAY_MS\<close>, and
  returns true at the next resumption; the click on the item is the only click added.
\<close>

theorem activate_clicks_unchecked_only:
  assumes "exec steps (e0, findMenuItemButton PS_PRIVATE_SESSION_LABEL_TEXT e0 s)
             = ((e1, Return (Some item) s1), [])"
  shows "exec (steps @ [Resume e2]) (e0, activatePrivateSessionMenuItem e0 s)
           = (if isMenuItemSelected item then ((e1, Return True s1), [Resume e2])
              else ((e2, Return True
                           (s1\<lparr>trace := trace s1 @ [Click item, SetTimeout PS_DELAY_MS],
                               timerCount := timerCount s1 + 1\<rparr>)), []))"
  unfolding activatePrivateSessionMenuItem_def
  by (subst exec_bind [OF assms]) (simp add: prims)

text \<open>The open menu with the item checked, and with the item not checked.\<close>

theorem activate_clicks_unchecked_only_witness:
  "exec [Resume (menuOpen True 1100)]
     (menuOpen True 1000, activatePrivateSessionMenuItem (menuOpen True 1000) initial_state)
     = ((menuOpen True 1000, Return True (initial_state\<lparr>trace := [QueryAll MENU_ITEM_BUTTON]\<rparr>)),
        [Resume (menuOpen True 1100)])
   \<and> exec [Resume (menuOpen False 1100)]
     (menuOpen False 1000, activatePrivateSessionMenuItem (menuOpen False 1000) initial_state)
     = ((menuOpen False 1100,
         Return True
           (initial_state\<lparr>trace := [QueryAll MENU_ITEM_BUTTON, Click (sessionItem False),
                                     SetTimeout PS_DELAY_MS],
                          timerCount := 1\<rparr>)), [])"
proof -
  have a: "exec [] (menuOpen c 1000,
             findMenuItemButton PS_PRIVATE_SESSION_LABEL_TEXT (menuOpen c 1000) initial_state)
           = ((menuOpen c 1000,
               Return (Some (sessionItem c))
                 (initial_state\<lparr>trace := [QueryAll MENU_ITEM_BUTTON]\<rparr>)), [])"
    for c
    by (simp add: model_defs loops const_defs prims fixture_defs)
  have b: "isMenuItemSelected (sessionItem True)" "\<not> isMenuItemSelected (sessionItem False)"
    by (simp_all add: model_defs fixture_defs)
  from activate_clicks_unchecked_only [OF a [of True], of "menuOpen True 1100"]
    activate_clicks_unchecked_only [OF a [of False], of "menuOpen False 1100"] b
  show ?thesis by (simp add: initial_state_def)
qed

subsection \<open>Exceptions in the composite operation\<close>

lemma ensureMenuClosed_trace:
  "trace (ensureMenuClosed e s)
     = trace s
       @ (if truthy (menuCloseTimer s) then [ClearTimeout (the (menuCloseTimer s))] else [])
       @ [Query PROFILE_DROPDOWN_MENU]
       @ (if matches e PROFILE_DROPDOWN_MENU = [] then []
          else Query MAIN_MENU
               # (case matches e MAIN_MENU of [] \<Rightarrow> [] | b # _ \<Rightarrow> [Click b, SetTimeout 150]))"
  by (simp add: ensureMenuClosed_def prims Let_def split: list.split)

lemma ensureMenuClosed_kept [simp]:
  "menuOperationInProgress (ensureMenuClosed e s) = menuOperationInProgress s"
  "lastMenuOperationTime (ensureMenuClosed e s) = lastMenuOperationTime s"
  by (simp_all add: ensureMenuClosed_def prims Let_def split: list.split)

text \<open>
  C5. Let a call of \<^verbatim>\<open>startPrivateSession\<close> pass the guard, and let the body of its
  \<^verbatim>\<open>try\<close>, run over any steps, throw any error \<open>err\<close> at some moment, in environment
  \<open>e1\<close> and state \<open>s1\<close>. Then the call itself, over the same steps, does not throw: at
  that moment it returns false, in the state \<^verbatim>\<open>cleanupMenuOperation\<close> makes of \<open>s1\<close>.
  In that state the in-progress flag is off, and the trace shows the work of
  \<^verbatim>\<open>ensureMenuClosed\<close>: a pending close timer cleared, the query for an open menu, and,
  when a menu is open and the account button is there, the click on the button that
  closes it.
\<close>

theorem exceptions_are_caught:
  assumes "canPerformMenuOperation e0 s"
    and "exec steps (e0, startPrivateSession_try forceOpen e0 s) = ((e1, Raise err s1), rest)"
  shows "exec steps (e0, startPrivateSession forceOpen e0 s)
           = ((e1, Return False (cleanupMenuOperation e1 s1)), rest)
         \<and> \<not> menuOperationInProgress (cleanupMenuOperation e1 s1)
         \<and> trace (cleanupMenuOperation e1 s1)
             = trace s1
               @ (if truthy (menuCloseTimer s1) then [ClearTimeout (the (menuCloseTimer s1))]
                  else [])
               @ [Query PROFILE_DROPDOWN_MENU]
               @ (if matches e1 PROFILE_DROPDOWN_MENU = [] then []
                  else Query MAIN_MENU
                       # (case matches e1 MAIN_MENU of
                            [] \<Rightarrow> []
                          | b # _ \<Rightarrow> [Click b, SetTimeout 150]))"
  using assms
  by (simp add: startPrivateSession_def exec_catch_Raise startPrivateSession_catch_def
      cleanupMenuOperation_def ensureMenuClosed_trace)

text \<open>The two errors the script throws: the account button is never found; the button
  is found and the menu item is not.\<close>

theorem exceptions_are_caught_witness:
  "canPerformMenuOperation (inactive 1000) initial_state
   \<and> (\<exists>s1.
        exec [Resume (inactive 1100), Resume (inactive 1200), Resume (inactive 1350),
              Resume (inactive 1450), Resume (inactive 1550), Resume (inactive 1650)]
          (inactive 1000, startPrivateSession_try True (inactive 1000) initial_state)
          = ((inactive 1650, Raise (Error ''Failed to find menu button'') s1), [])
        \<and> exec [Resume (inactive 1100), Resume (inactive 1200), Resume (inactive 1350),
              Resume (inactive 1450), Resume (inactive 1550), Resume (inactive 1650)]
          (inactive 1000, startPrivateSession True (inactive 1000) initial_state)
          = ((inactive 1650, Return False (cleanupMenuOperation (inactive 1650) s1)), [])
        \<and> \<not> menuOperationInProgress (cleanupMenuOperation (inactive 1650) s1))
   \<and> (\<exists>s1.
        exec [Resume (inactive 1100), Resume (menuClosed 1200), Resume (menuClosed 1350),
              Resume (menuClosed 1550), Resume (menuClosed 1650), Resume (menuClosed 1750),
              Resume (menuClosed 1850)]
          (inactive 1000, startPrivateSession_try True (inactive 1000) initial_state)
          = ((menuClosed 1850, Raise (Error ''Private session menu item not found'') s1), [])
        \<and> exec [Resume (inactive 1100), Resume (menuClosed 1200), Resume (menuClosed 1350),
              Resume (menuClosed 1550), Resume (menuClosed 1650), Resume (menuClosed 1750),
              Resume (menuClosed 1850)]
          (inactive 1000, startPrivateSession True (inactive 1000) initial_state)
          = ((menuClosed 1850, Return False (cleanupMenuOperation (menuClosed 1850) s1)), [])
        \<and> \<not> menuOperationInProgress (cleanupMenuOperation (menuClosed 1850) s1))"
proof -
  let ?noButton = "[Resume (inactive 1100), Resume (inactive 1200), Resume (inactive 1350),
              Resume (inactive 1450), Resume (inactive 1550), Resume (inactive 1650)]"
  let ?noItem = "[Resume (inactive 1100), Resume (menuClosed 1200), Resume (menuClosed 1350),
              Resume (menuClosed 1550), Resume (menuClosed 1650), Resume (menuClosed 1750),
              Resume (menuClosed 1850)]"
  have c: "canPerformMenuOperation (inactive 1000) initial_state"
    by (simp add: canPerformMenuOperation_def fixture_defs const_defs)
  have "\<exists>s1. exec ?noButton
          (inactive 1000, startPrivateSession_try True (inactive 1000) initial_state)
          = ((inactive 1650, Raise (Error ''Failed to find menu button'') s1), [])"
    by (simp add: model_defs loops const_defs prims fixture_defs)
  then obtain s1 where b1: "exec ?noButton
          (inactive 1000, startPrivateSession_try True (inactive 1000) initial_state)
          = ((inactive 1650, Raise (Error ''Failed to find menu button'') s1), [])"
    by blast
  have "\<exists>s2. exec ?noItem
          (inactive 1000, startPrivateSession_try True (inactive 1000) initial_state)
          = ((menuClosed 1850, Raise (Error ''Private session menu item not found'') s2), [])"
    by (simp add: model_defs loops const_defs prims fixture_defs)
  then obtain s2 where b2: "exec ?noItem
          (inactive 1000, startPrivateSession_try True (inactive 1000) initial_state)
          = ((menuClosed 1850, Raise (Error ''Private session menu item not found'') s2), [])"
    by blast
  from exceptions_are_caught [OF c b1] exceptions_are_caught [OF c b2] c b1 b2
  show ?thesis by blast
qed

subsection \<open>The cooldown\<close>

text \<open>
  C1, as the claim states it, fails. The first call finds the private session already
  active and returns true; it never runs \<^verbatim>\<open>prepareMenuOperation\<close>, so
  \<^verbatim>\<open>lastMenuOperationTime\<close> stays 0. A second call 100 ms later passes the guard,
  queries the document again and returns true.
\<close>

theorem cooldown_counterexample:
  "startPrivateSession True (active 1000000) initial_state
     = Return True (initial_state\<lparr>trace := [Query PRIVATE_SESSION_INDICATOR_CONTAINER]\<rparr>)
   \<and> now (active 1000100) - now (active 1000000) < MENU_OPERATION_COOLDOWN
   \<and> startPrivateSession True (active 1000100)
        (initial_state\<lparr>trace := [Query PRIVATE_SESSION_INDICATOR_CONTAINER]\<rparr>)
     = Return True (initial_state\<lparr>trace := [Query PRIVATE_SESSION_INDICATOR_CONTAINER,
                                            Query PRIVATE_SESSION_INDICATOR_CONTAINER]\<rparr>)"
  by (simp add: model_defs loops const_defs prims fixture_defs)

text \<open>Nothing but \<^verbatim>\<open>prepareMenuOperation\<close> and \<^verbatim>\<open>handleMenuAppearance\<close> writes
  \<^verbatim>\<open>lastMenuOperationTime\<close>, and both write the time of the moment.\<close>

lemma ensurePersistentMenuItem_time:
  "lastMenuOperationTime (snd (ensurePersistentMenuItem ml e s)) = lastMenuOperationTime s"
  by (simp add: ensurePersistentMenuItem_def addPersistentPrivacyItem_def
      findPrivateSessionItem_def setTimeout_def Let_def
      split: option.split list.split prod.split)

lemma handleMenuAppearance_time:
  "lastMenuOperationTime (handleMenuAppearance ml e s) = lastMenuOperationTime s
   \<or> lastMenuOperationTime (handleMenuAppearance ml e s) = now e"
  by (simp add: handleMenuAppearance_def Let_def split: option.split prod.split)

lemma handleMutations_time:
  "lastMenuOperationTime (handleMutations ms e s) = lastMenuOperationTime s
   \<or> lastMenuOperationTime (handleMutations ms e s) = now e"
proof -
  obtain a d m where am: "analyzeMutations ms s = (a, d, m)"
    by (cases "analyzeMutations ms s") auto
  show ?thesis
    using handleMenuAppearance_time [of _ e "handleMenuDisappearance s"]
      handleMenuAppearance_time [of _ e s]
    by (cases m)
      (auto simp add: handleMutations_def handleMenuStateChanges_def am
        handleMenuDisappearance_def Let_def)
qed

lemma recent_between:
  "T \<le> now (stepEnv st) \<Longrightarrow> recent T s \<Longrightarrow> recent T (between st s)"
proof (cases st)
  case (Resume e)
  assume "recent T s"
  with Resume show ?thesis by (simp add: between_def)
next
  case (Fire t e)
  assume "recent T s"
  with Fire show ?thesis
    by (simp add: between_def recent_def fireTimeout_def menuCloseCheck_def prims Let_def
        split: option.split callback.split list.split prod.split)
next
  case (Observe ms e)
  assume "T \<le> now (stepEnv st)" "recent T s"
  with Observe handleMutations_time [of ms e s] show ?thesis
    by (auto simp add: between_def recent_def stepEnv_def)
qed

lemma recent_getElement: "recent T s \<Longrightarrow> always (recent T) (getElement sel m e s)"
  by (simp add: getElement_def loops const_defs prims recent_def split: list.split)

lemma recent_findMenuItemButton:
  "recent T s \<Longrightarrow> always (recent T) (findMenuItemButton l e s)"
  by (simp add: findMenuItemButton_def searchForMenuItemButton_def loops const_defs prims
      recent_def split: list.split option.split)

lemma recent_openMainMenu: "recent T s \<Longrightarrow> always (recent T) (openMainMenu e s)"
  unfolding openMainMenu_def
  apply (simp add: sleep_def)
  apply (rule conjI)
   apply (simp add: recent_def)
  apply (intro allI impI)
  apply (rule always_bind)
   apply (erule recent_getElement)
  apply (simp add: recent_def prims split: option.split found.split)
  done

lemma recent_activate:
  "recent T s \<Longrightarrow> always (recent T) (activatePrivateSessionMenuItem e s)"
  unfolding activatePrivateSessionMenuItem_def
  apply (rule always_bind)
   apply (erule recent_findMenuItemButton)
  apply (simp add: recent_def prims split: option.split)
  done

lemma recent_handle:
  "always (recent (now e))
     (catchA (handlePrivateSessionActivation True e s) startPrivateSession_catch e)"
  unfolding handlePrivateSessionActivation_def
  apply simp
  apply (rule always_catch)
   apply (rule always_bind)
    apply (rule recent_openMainMenu)
    apply (simp add: recent_def prepareMenuOperation_def)
   apply (rule always_bind)
    apply (erule recent_activate)
   apply (simp add: recent_def cleanupMenuOperation_def)
  apply (simp add: recent_def cleanupMenuOperation_def startPrivateSession_catch_def)
  done

text \<open>
  C1, amended. Let a first call \<^verbatim>\<open>startPrivateSession(true)\<close> pass the guard and find
  the private session not active, the check ending in environment \<open>ep\<close>: that is the
  moment of its \<^verbatim>\<open>prepareMenuOperation\<close>, at time \<open>now ep\<close>. Let the first call go on
  from there over any further steps \<open>rest\<close> (its own resumptions, firings of the menu-close
  timer, calls of the mutation observer), none at a time before \<open>now ep\<close>, and let
  \<open>state_of r1\<close> be the state it has reached, finished or still under way. A call of
  \<^verbatim>\<open>startPrivateSession\<close> in that state, at a time less than
  \<open>MENU_OPERATION_COOLDOWN\<close> after \<open>now ep\<close>, returns false at once and leaves the state,
  trace included, as it is. Calls made before the first call's
  \<^verbatim>\<open>prepareMenuOperation\<close> are not in the statement.
\<close>

theorem cooldown_after_menu_operation:
  assumes "canPerformMenuOperation e0 s0"
    and "exec steps (e0, isPrivateSessionActive e0 s0) = ((ep, Return False sp), rest)"
    and "\<forall>st \<in> set rest. now ep \<le> now (stepEnv st)"
    and "exec steps (e0, startPrivateSession True e0 s0) = ((e1, r1), rest1)"
    and "now e2 - now ep < MENU_OPERATION_COOLDOWN"
  shows "startPrivateSession forceOpen e2 (state_of r1) = Return False (state_of r1)"
proof -
  have "exec steps (e0, startPrivateSession True e0 s0)
          = exec rest (ep, catchA (handlePrivateSessionActivation True ep sp)
                             startPrivateSession_catch ep)"
    using assms(1)
    by (simp add: startPrivateSession_def startPrivateSession_try_def
        exec_catch_bind [OF assms(2)])
  with assms(4) have run: "exec rest (ep, catchA (handlePrivateSessionActivation True ep sp)
                             startPrivateSession_catch ep) = ((e1, r1), rest1)"
    by simp
  have steps: "\<And>st s. st \<in> set rest \<Longrightarrow> recent (now ep) s \<Longrightarrow> recent (now ep) (between st s)"
    using assms(3) by (simp add: recent_between)
  from exec_always [of rest "recent (now ep)", OF steps recent_handle run]
  have "recent (now ep) (state_of r1)" by (rule always_state_of)
  with assms(5) show ?thesis
    by (simp add: startPrivateSession_def canPerformMenuOperation_def recent_def)
qed

text \<open>
  The first call runs \<^verbatim>\<open>prepareMenuOperation\<close> at 1200 and clicks the account button at
  1350; the menu appears and the observer writes 1400 into \<^verbatim>\<open>lastMenuOperationTime\<close>;
  the call clicks the item and returns true at 1650. A second call at 1690 does nothing.
\<close>

theorem cooldown_after_menu_operation_witness:
  "canPerformMenuOperation (inactive 1000) observing
   \<and> (\<exists>sp. exec [Resume (inactive 1100), Resume (inactive 1200), Resume (menuOpen False 1350),
                 Observe menuAppears (menuOpen False 1400),
                 Resume (menuOpen False 1550), Resume (menuOpen False 1650)]
             (inactive 1000, isPrivateSessionActive (inactive 1000) observing)
           = ((inactive 1200, Return False sp),
              [Resume (menuOpen False 1350), Observe menuAppears (menuOpen False 1400),
               Resume (menuOpen False 1550), Resume (menuOpen False 1650)]))
   \<and> list_all (\<lambda>st. now (inactive 1200) \<le> now (stepEnv st))
         [Resume (menuOpen False 1350), Observe menuAppears (menuOpen False 1400),
          Resume (menuOpen False 1550), Resume (menuOpen False 1650)]
   \<and> now (inactive 1690) - now (inactive 1200) < MENU_OPERATION_COOLDOWN
   \<and> (\<exists>s1. exec [Resume (inactive 1100), Resume (inactive 1200), Resume (menuOpen False 1350),
                 Observe menuAppears (menuOpen False 1400),
                 Resume (menuOpen False 1550), Resume (menuOpen False 1650)]
             (inactive 1000, startPrivateSession True (inactive 1000) observing)
           = ((menuOpen False 1650, Return True s1), [])
         \<and> lastMenuOperationTime s1 = 1400
         \<and> startPrivateSession True (inactive 1690) s1 = Return False s1)"
proof -
  let ?rest = "[Resume (menuOpen False 1350), Observe menuAppears (menuOpen False 1400),
                 Resume (menuOpen False 1550), Resume (menuOpen False 1650)]"
  let ?steps = "Resume (inactive 1100) # Resume (inactive 1200) # ?rest"
  have c: "canPerformMenuOperation (inactive 1000) observing"
    by (simp add: canPerformMenuOperation_def fixture_defs const_defs)
  have "\<exists>sp. exec ?steps (inactive 1000, isPrivateSessionActive (inactive 1000) observing)
           = ((inactive 1200, Return False sp), ?rest)"
    by (simp add: model_defs loops const_defs prims fixture_defs)
  then obtain sp where a:
    "exec ?steps (inactive 1000, isPrivateSessionActive (inactive 1000) observing)
           = ((inactive 1200, Return False sp), ?rest)"
    by blast
  have m: "\<forall>st \<in> set ?rest. now (inactive 1200) \<le> now (stepEnv st)"
    by (simp add: fixture_defs stepEnv_def)
  have "\<exists>s1. exec ?steps (inactive 1000, startPrivateSession True (inactive 1000) observing)
           = ((menuOpen False 1650, Return True s1), [])
         \<and> lastMenuOperationTime s1 = 1400"
    by (simp add: model_defs loops const_defs prims fixture_defs observer_defs dom_defs
        eval_nat_numeral Let_def)
  then obtain s1 where b:
    "exec ?steps (inactive 1000, startPrivateSession True (inactive 1000) observing)
           = ((menuOpen False 1650, Return True s1), [])"
    and t: "lastMenuOperationTime s1 = 1400"
    by blast
  have d: "now (inactive 1690) - now (inactive 1200) < MENU_OPERATION_COOLDOWN"
    by (simp add: fixture_defs const_defs)
  from cooldown_after_menu_operation [OF c a m b d, of True] have
    "startPrivateSession True (inactive 1690) s1 = Return False s1" by simp
  moreover have "list_all (\<lambda>st. now (inactive 1200) \<le> now (stepEnv st)) ?rest"
    by (simp add: fixture_defs stepEnv_def)
  ultimately show ?thesis using a b c d t by blast
qed

subsection \<open>Two menu operations at once\<close>

text \<open>
  C2 fails on the code. \<^verbatim>\<open>canPerformMenuOperation\<close> reads the in-progress flag before
  \<^verbatim>\<open>await isPrivateSessionActive()\<close>, and \<^verbatim>\<open>prepareMenuOperation\<close> sets it after: when
  no private session is active the two are 200 ms apart, and a second caller that reads
  the flag in between goes on to open the menu as well. In \<open>overlap_schedule\<close> the focus
  check passes the guard at 1001150 and the initialization at 1001200; the focus check
  sets the flag at 1001350 and waits in \<^verbatim>\<open>openMainMenu\<close>; at 1001400 the initialization
  runs \<^verbatim>\<open>prepareMenuOperation\<close> too. Before the last event one composite operation is
  in flight, after it two are: both tasks are suspended at line 232, in
  \<^verbatim>\<open>openMainMenu\<close>, due at 1001550 and 1001500, and \<^verbatim>\<open>lastMenuOperationTime\<close> is the
  time of the second \<^verbatim>\<open>prepareMenuOperation\<close>.
\<close>

theorem overlapping_menu_operations:
  "map_option operationsInFlight
      (event_loop (butlast overlap_schedule) (1000000, savedEnabled, [])) = Some 1
   \<and> map_option operationsInFlight
      (event_loop overlap_schedule (1000000, savedEnabled, [])) = Some 2
   \<and> map_option
        (\<lambda>(clock, s, ts).
           (menuOperationInProgress s, lastMenuOperationTime s,
            map (\<lambda>(w, r). case r of Suspend l d s' c \<Rightarrow> Some (l, w) | _ \<Rightarrow> None) ts))
        (event_loop overlap_schedule (1000000, savedEnabled, []))
      = Some (True, 1001400, [Some (232, 1001550), Some (232, 1001500)])"
  by (simp add: overlap_schedule_def savedEnabled_def loop_defs model_defs loops const_defs prims
      fixture_defs Let_def)

subsection \<open>The custom menu item\<close>

text \<open>The item that \<^verbatim>\<open>createPersistentMenuItem\<close> builds holds a \<^verbatim>\<open>div\<close> and two
  \<^verbatim>\<open>span\<close>s and no \<^verbatim>\<open>button\<close> element, so \<^verbatim>\<open>updatePersistentMenuItemState\<close>, which
  looks for a \<^verbatim>\<open>button\<close> inside the item, leaves the list as it is.\<close>

lemma update_of_created_item:
  "nodeAt ml p = Some (createPersistentMenuItem c s0) \<Longrightarrow>
   updatePersistentMenuItemState ml p s = ml"
  by (simp add: updatePersistentMenuItemState_def elementsBy_def matchesAt_def
      createPersistentMenuItem_def createMenuButton_def createToggleElement_def
      createToggleSwitch_def eval_nat_numeral)

text \<open>
  C8 fails on the code in its last part. On the profile menu with persistent mode off,
  \<^verbatim>\<open>ensurePersistentMenuItem\<close> creates one item with the id \<^verbatim>\<open>ps-persistent-item\<close>,
  right after the private-session item (at path \<open>[1]\<close>, between the two items of the
  menu), with the toggle drawn for "off". After \<^verbatim>\<open>togglePersistentMode\<close> the flag is on; the second
  \<^verbatim>\<open>ensurePersistentMenuItem\<close> on the same list creates no second item and changes
  nothing at all: the toggle is still the one drawn for "off", which is not the toggle
  for the flag as it now is.
\<close>

theorem ensure_again_leaves_toggle_stale:
  "(case ensurePersistentMenuItem (Some profileMenu) (inactive 1000) initial_state of
      (Some ml1, s1) \<Rightarrow>
        elementsBy ml1 (ById PS_PERSISTENT_ITEM_ID) = [[1]]
        \<and> map (nodeAt ml1) [[0], [2]] = map (nodeAt profileMenu) [[0], [1]]
        \<and> length (childNodes ml1) = 3
        \<and> nodeAt ml1 [1, 0, 1] = Some (createToggleElement initial_state)
        \<and> persistentModeEnabled (togglePersistentMode s1)
        \<and> fst (ensurePersistentMenuItem (Some ml1) (inactive 1000) (togglePersistentMode s1))
            = Some ml1
        \<and> createToggleElement (togglePersistentMode s1) \<noteq> createToggleElement initial_state
    | _ \<Rightarrow> False)"
  by (simp add: ensurePersistentMenuItem_def findItemByText_def elementsBy_def matchesAt_def
      closest_def textContentAt_def classNameAt_def addPersistentPrivacyItem_def
      findPrivateSessionItem_def createPersistentMenuItem_def createMenuButton_def
      createToggleElement_def createToggleSwitch_def insertAfter_def
      updatePersistentMenuItemState_def profileMenu_def initial_state_def
      PS_PRIVATE_SESSION_LABEL_TEXT_def PS_PERSISTENT_ITEM_ID_def PS_PERSISTENT_SESSION_LABEL_TEXT_def
      togglePersistentMode_def enablePersistentMode_def savePersistentModeSetting_def
      toggleTitle_def Let_def eval_nat_numeral classList_def isSpace_def isHtmlSpace_def)

subsection \<open>The recorded time under every interleaving of the event loop\<close>

text \<open>
  In the event loop, with any number of calls under way, window focus events, timers and
  calls of the mutation observer in any order, as long as no event comes with a clock
  earlier than the one before it: \<^verbatim>\<open>lastMenuOperationTime\<close> never decreases and never
  lies in the future. So a call of \<^verbatim>\<open>startPrivateSession\<close> made less than 500 ms after a
  recorded time is refused by \<^verbatim>\<open>canPerformMenuOperation\<close>, whatever has run in between.
\<close>

lemma safe_weaken: "safe Q b e r \<Longrightarrow> (ok \<Longrightarrow> b) \<Longrightarrow> safe Q ok e r"
  by (cases r) auto

lemma safe_False: "safe Q ok e r \<Longrightarrow> safe Q False e' r"
  by (cases r) auto

lemma safe_state_of: "safe Q True e r \<Longrightarrow> Q e (state_of r)"
  by (cases r) auto

lemma safe_bind:
  "safe Q ok e r \<Longrightarrow> (\<And>x e s. safe Q (Q e s) e (k x e s)) \<Longrightarrow> safe Q ok e (bindA r k e)"
proof (induction r arbitrary: ok e)
  case (Return x s)
  have "safe Q (Q e s) e (k x e s)" by (rule Return.prems(2))
  then show ?case using Return.prems(1) by (auto intro: safe_weaken)
next
  case (Raise err s)
  then show ?case by simp
next
  case (Suspend l d s c)
  from Suspend.IH [OF rangeI rangeI] Suspend.prems show ?case by auto
qed

lemma safe_catch:
  "safe Q ok e r \<Longrightarrow> (\<And>err e s. safe Q (Q e s) e (h err e s)) \<Longrightarrow> safe Q ok e (catchA r h e)"
proof (induction r arbitrary: ok e)
  case (Return x s)
  then show ?case by simp
next
  case (Raise err s)
  have "safe Q (Q e s) e (h err e s)" by (rule Raise.prems(2))
  then show ?case using Raise.prems(1) by (auto intro: safe_weaken)
next
  case (Suspend l d s c)
  from Suspend.IH [OF rangeI rangeI] Suspend.prems show ?case by auto
qed

lemma timely_getElement: "safe (timely T) (timely T e s) e (getElement sel m e s)"
  by (simp add: getElement_def loops const_defs prims timely_def split: list.split)

lemma timely_findMenuItemButton: "safe (timely T) (timely T e s) e (findMenuItemButton l e s)"
  by (simp add: findMenuItemButton_def searchForMenuItemButton_def loops const_defs prims
      timely_def split: list.split option.split)

lemma timely_findIndicator: "safe (timely T) (timely T e s) e (findPrivateSessionIndicator e s)"
  by (simp add: findPrivateSessionIndicator_def searchForPrivateSessionIndicator_def loops
      const_defs prims timely_def split: list.split option.split)

lemma timely_isActive: "safe (timely T) (timely T e s) e (isPrivateSessionActive e s)"
  unfolding isPrivateSessionActive_def
  by (rule safe_bind [OF timely_findIndicator]) simp

lemma timely_ensureMenuClosed [simp]: "timely T e' (ensureMenuClosed e s) = timely T e' s"
  by (simp add: timely_def)

lemma timely_openMainMenu: "safe (timely T) (timely T e s) e (openMainMenu e s)"
  unfolding openMainMenu_def
  apply (simp add: sleep_def)
  apply (rule conjI)
   apply (simp add: timely_def)
  apply (intro allI)
  apply (rule safe_bind [OF timely_getElement])
  apply (simp add: timely_def prims split: option.split found.split)
  done

lemma timely_activate: "safe (timely T) (timely T e s) e (activatePrivateSessionMenuItem e s)"
  unfolding activatePrivateSessionMenuItem_def
  apply (rule safe_bind [OF timely_findMenuItemButton])
  apply (simp add: timely_def prims split: option.split)
  done

lemma timely_prepare: "timely T e s \<Longrightarrow> timely T e (prepareMenuOperation e s)"
  by (simp add: timely_def prepareMenuOperation_def)

lemma timely_handle:
  "safe (timely T) (timely T e s) e (handlePrivateSessionActivation forceOpen e s)"
proof (cases forceOpen)
  case False
  then show ?thesis by (simp add: handlePrivateSessionActivation_def)
next
  case True
  have "safe (timely T) (timely T e s) e (openMainMenu e (prepareMenuOperation e s))"
    by (rule safe_weaken [OF timely_openMainMenu]) (rule timely_prepare)
  then show ?thesis
    unfolding handlePrivateSessionActivation_def using True
    apply simp
    apply (erule safe_bind)
    apply (rule safe_bind [OF timely_activate])
    apply (simp add: cleanupMenuOperation_def timely_def)
    done
qed

lemma timely_start: "safe (timely T) (timely T e s) e (startPrivateSession forceOpen e s)"
  unfolding startPrivateSession_def startPrivateSession_try_def
  apply (simp, intro impI)
  apply (rule safe_catch)
   apply (rule safe_bind [OF timely_isActive])
   apply (simp add: timely_handle)
  apply (simp add: startPrivateSession_catch_def cleanupMenuOperation_def timely_def)
  done

lemma timely_frame [simp]:
  "timely T e (s\<lparr>trace := tr\<rparr>) = timely T e s"
  "timely T e (s\<lparr>timerCount := n\<rparr>) = timely T e s"
  "timely T e (s\<lparr>timeouts := tos\<rparr>) = timely T e s"
  "timely T e (s\<lparr>pendingFocusCheck := b\<rparr>) = timely T e s"
  "timely T e (s\<lparr>menuCloseTimer := mt\<rparr>) = timely T e s"
  "timely T e (s\<lparr>menuItemAdded := b\<rparr>) = timely T e s"
  "timely T e (setupMenuObserver s) = timely T e s"
  "timely T e (loadPersistentModeSetting s) = timely T e s"
  "timely T e (enablePersistentMode s) = timely T e s"
  by (simp_all add: timely_def setupMenuObserver_def loadPersistentModeSetting_def
      enablePersistentMode_def savePersistentModeSetting_def Let_def)

lemma timely_call:
  "safe (timely T) (timely T e s) e
     (bindA (startPrivateSession forceOpen e s) (\<lambda>_ e' s'. Return () s') e)"
  by (rule safe_bind [OF timely_start]) simp

lemma timely_check_and_start:
  "safe (timely T) (timely T e s) e
     (bindA (isPrivateSessionActive e s)
        (\<lambda>isActive e3 s3.
           if \<not> isActive
           then bindA (startPrivateSession True e3 s3) (\<lambda>_ e4 s4. Return () s4) e3
           else Return () s3)
        e)"
  by (rule safe_bind [OF timely_isActive]) (simp add: timely_call)

lemma timely_focusCheck: "safe (timely T) (timely T e s) e (focusCheck e s)"
proof -
  let ?s1 = "s\<lparr>pendingFocusCheck := False, trace := trace s @ [Query PROFILE_DROPDOWN_MENU]\<rparr>"
  have "safe (timely T) (timely T e ?s1) e
     (bindA (isPrivateSessionActive e ?s1)
        (\<lambda>isActive e1 s2.
           if \<not> isActive \<and> persistentModeEnabled s2
           then bindA (startPrivateSession True e1 s2) (\<lambda>_ e2 s3. Return () s3) e1
           else Return () s2)
        e)"
    by (rule safe_bind [OF timely_isActive]) (simp add: timely_call)
  then show ?thesis
    by (simp add: focusCheck_def document_querySelector_def Let_def)
qed

lemma timely_initialize: "safe (timely T) (timely T e s) e (initializePrivateSession e s)"
proof -
  let ?s0 = "setupMenuObserver (loadPersistentModeSetting s)"
  have "safe (timely T) (timely T e ?s0) e (initializePrivateSession e s)"
    unfolding initializePrivateSession_def
    by (rule safe_bind [OF timely_isActive])
      (simp add: sleep_def timely_check_and_start)
  then show ?thesis by simp
qed

lemma timely_listener [simp]: "timely T e (focusEventListener_body e' s) = timely T e s"
  by (simp add: focusEventListener_body_def setTimeout_def Let_def)

lemma timely_listeners [simp]:
  "timely T e (foldl (\<lambda>s' f. focusEventListener_body e' s') s fs) = timely T e s"
  by (induction fs arbitrary: s) simp_all

lemma timely_menuCloseCheck [simp]: "timely T e (menuCloseCheck b e' s) = timely T e s"
  by (simp add: menuCloseCheck_def document_querySelector_def click_def Let_def
      split: list.split)

lemma timely_handleMutations: "timely T e s \<Longrightarrow> timely T e (handleMutations ms e s)"
  using handleMutations_time [of ms e s] by (auto simp add: timely_def)

lemma goodTasksD: "goodTasks ts \<Longrightarrow> (w, r) \<in> set ts \<Longrightarrow> safe (timely T) False e r"
  by (fastforce simp add: goodTasks_def)

lemma goodTasksI:
  "(\<And>w r T e. (w, r) \<in> set ts \<Longrightarrow> safe (timely T) False e r) \<Longrightarrow> goodTasks ts"
  by (auto simp add: goodTasks_def)

lemma spawn_timely:
  assumes "\<And>T. safe (timely T) (timely T e s) e r"
    and "goodTasks ts" and "lastMenuOperationTime s \<le> now e"
  shows "goodTasks (ts @ [(w, r)])
         \<and> lastMenuOperationTime s \<le> lastMenuOperationTime (state_of r)
         \<and> lastMenuOperationTime (state_of r) \<le> now e"
proof -
  have "safe (timely T) False e' r" for T e'
    using assms(1) by (rule safe_False)
  with assms(2) have "goodTasks (ts @ [(w, r)])"
    by (auto simp add: goodTasks_def)
  moreover have "timely (lastMenuOperationTime s) e s"
    using assms(3) by (simp add: timely_def)
  with assms(1) [of "lastMenuOperationTime s"]
  have "timely (lastMenuOperationTime s) e (state_of r)"
    by (auto intro: safe_state_of)
  ultimately show ?thesis by (simp add: timely_def)
qed

lemma resume_timely:
  assumes "goodTasks ts" and "i < length ts" and "ts ! i = (w, Suspend l d s0 c)"
    and "lastMenuOperationTime s \<le> now e"
  shows "goodTasks (ts[i := (w', c e s)])
         \<and> lastMenuOperationTime s \<le> lastMenuOperationTime (state_of (c e s))
         \<and> lastMenuOperationTime (state_of (c e s)) \<le> now e"
proof -
  from assms(2,3) have "(w, Suspend l d s0 c) \<in> set ts"
    by (metis nth_mem)
  with assms(1) have c: "safe (timely T) (timely T e s) e (c e s)" for T
    by (fastforce simp add: goodTasks_def)
  then have "safe (timely T) False e' (c e s)" for T e'
    by (rule safe_False)
  then have "goodTasks (ts[i := (w', c e s)])"
  proof (intro goodTasksI)
    fix w1 r1 T e'
    assume f: "\<And>T e'. safe (timely T) False e' (c e s)"
      and "(w1, r1) \<in> set (ts[i := (w', c e s)])"
    then have "(w1, r1) = (w', c e s) \<or> (w1, r1) \<in> set ts"
      using set_update_subset_insert [of ts i "(w', c e s)"] by blast
    then show "safe (timely T) False e' r1"
      using f [of T e'] goodTasksD [OF assms(1), of w1 r1 T e'] by auto
  qed
  moreover have "timely (lastMenuOperationTime s) e s"
    using assms(4) by (simp add: timely_def)
  with c [of "lastMenuOperationTime s"]
  have "timely (lastMenuOperationTime s) e (state_of (c e s))"
    by (auto intro: safe_state_of)
  ultimately show ?thesis by (simp add: timely_def)
qed

lemma dispatch_timely:
  assumes good: "goodTasks ts" and le: "lastMenuOperationTime s \<le> clock"
    and d: "dispatch (a, e) (clock, s, ts) = Some (clock', s', ts')"
  shows "goodTasks ts'
         \<and> lastMenuOperationTime s \<le> lastMenuOperationTime s'
         \<and> lastMenuOperationTime s' \<le> clock'"
proof -
  from d have ce: "clock \<le> now e" by (simp split: if_splits)
  with le have ne: "lastMenuOperationTime s \<le> now e" by simp
  then have t0: "timely (lastMenuOperationTime s) e s" by (simp add: timely_def)
  show ?thesis
  proof (cases a)
    case Initialize
    with d ce spawn_timely [OF timely_initialize good ne] show ?thesis
      by (auto simp add: spawn_def)
  next
    case (CallStart forceOpen)
    with d ce spawn_timely [OF timely_call good ne] show ?thesis
      by (auto simp add: spawn_def)
  next
    case FocusEvent
    with d ce good t0 show ?thesis
      using timely_listeners [of "lastMenuOperationTime s" e e s "windowFocusListeners s"]
      by (auto simp add: timely_def)
  next
    case (Mutations ms)
    with d ce good timely_handleMutations [OF t0, of ms] show ?thesis
      by (auto simp add: timely_def split: if_splits)
  next
    case (ResumeTask i)
    with d ce obtain w l dl s0 c where
      i: "i < length ts" and ti: "ts ! i = (w, Suspend l dl s0 c)"
      and r: "clock' = now e" "s' = state_of (c e s)" "ts' = ts[i := (wake e (c e s), c e s)]"
      by (auto simp add: Let_def split: if_splits prod.splits run.splits)
    from resume_timely [OF good i ti ne] r show ?thesis by simp
  next
    case (FireTimer t)
    with d ce obtain due cb where
      m: "map_of (timeouts s) t = Some (due, cb)" and due: "due \<le> now e"
      by (auto split: if_splits option.splits)
    let ?s = "s\<lparr>timeouts := filter (\<lambda>(i, _). i \<noteq> t) (timeouts s)\<rparr>"
    have ne': "lastMenuOperationTime ?s \<le> now e" using ne by simp
    show ?thesis
    proof (cases cb)
      case (MenuCloseCheck b)
      with d ce m due FireTimer good t0 show ?thesis
        using timely_menuCloseCheck [of "lastMenuOperationTime s" e b e ?s]
        by (auto simp add: timely_def Let_def)
    next
      case FocusCheck
      with d ce m due FireTimer spawn_timely [OF timely_focusCheck good ne'] show ?thesis
        by (auto simp add: spawn_def Let_def)
    next
      case (RetryAddItem n)
      with d ce m due FireTimer show ?thesis by (auto simp add: Let_def)
    qed
  qed
qed

lemma event_loop_timely:
  "goodTasks ts \<Longrightarrow> lastMenuOperationTime s \<le> clock \<Longrightarrow>
   event_loop sched (clock, s, ts) = Some (clock', s', ts') \<Longrightarrow>
   goodTasks ts' \<and> lastMenuOperationTime s \<le> lastMenuOperationTime s'
   \<and> lastMenuOperationTime s' \<le> clock'"
proof (induction sched arbitrary: clock s ts)
  case Nil
  then show ?case by simp
next
  case (Cons ae sched)
  obtain a e where ae: "ae = (a, e)" by (cases ae)
  from Cons.prems(3) obtain c1 s1 ts1 where
    d: "dispatch (a, e) (clock, s, ts) = Some (c1, s1, ts1)"
    and rest: "event_loop sched (c1, s1, ts1) = Some (clock', s', ts')"
    unfolding ae by (cases "dispatch (a, e) (clock, s, ts)") auto
  from dispatch_timely [OF Cons.prems(1,2) d]
  have g: "goodTasks ts1" and m: "lastMenuOperationTime s \<le> lastMenuOperationTime s1"
    and c: "lastMenuOperationTime s1 \<le> c1" by simp_all
  from Cons.IH [OF g c rest] m show ?case by simp
qed

lemma cooldown_under_interleaving:
  assumes "lastMenuOperationTime s0 \<le> c0"
    and "event_loop sched1 (c0, s0, []) = Some (c1, s1, ts1)"
    and "event_loop sched2 (c1, s1, ts1) = Some (c2, s2, ts2)"
    and "now e - lastMenuOperationTime s1 < MENU_OPERATION_COOLDOWN"
  shows "startPrivateSession forceOpen e s2 = Return False s2"
proof -
  have "goodTasks ([] :: (int \<times> unit run) list)" by (simp add: goodTasks_def)
  from event_loop_timely [OF this assms(1,2)]
  have "goodTasks ts1" "lastMenuOperationTime s1 \<le> c1" by simp_all
  from event_loop_timely [OF this assms(3)]
  have "lastMenuOperationTime s1 \<le> lastMenuOperationTime s2" by simp
  with assms(4) show ?thesis
    by (simp add: startPrivateSession_def canPerformMenuOperation_def)
qed

end
